theory Spec2Isabelle
  imports Complex_Main "HOL-Library.Sublist"
begin

section \<open>Python values used by the PDF title changer\<close>

text \<open>
  The development embeds \<^verbatim>\<open>pdf_processor.py\<close>: the hexadecimal colour conversion, the
  seven page-editing strategies and the pipeline \<^verbatim>\<open>process_pdf\<close> that chains them.
  Python strings are \<^typ>\<open>string\<close>, Python floats are idealised as \<^typ>\<open>rat\<close>
  (the arithmetic of the source is a handful of subtractions and one division by 255),
  and every \<^verbatim>\<open>raise\<close> is a value \<open>Inl e\<close> of a sum type.
\<close>

datatype error =
  FileNotFoundError | FileDataError | IndexError | ValueError | AttributeError | PermissionError
| OSError

definition bind_err :: "error + 'a \<Rightarrow> ('a \<Rightarrow> error + 'b) \<Rightarrow> error + 'b" where
  "bind_err m f = (case m of Inl e \<Rightarrow> Inl e | Inr x \<Rightarrow> f x)"

subsection \<open>Strings\<close>

text \<open>The characters \<^verbatim>\<open>str.isspace\<close> accepts among the first 256 code points.\<close>

definition py_isspace :: "char \<Rightarrow> bool" where
  "py_isspace c = (let n = (of_char c :: nat) in
      (9 \<le> n \<and> n \<le> 13) \<or> (28 \<le> n \<and> n \<le> 32) \<or> n = 133 \<or> n = 160)"

text \<open>\<^verbatim>\<open>s.strip()\<close>\<close>

definition py_strip :: "string \<Rightarrow> string" where
  "py_strip s = rev (dropWhile py_isspace (rev (dropWhile py_isspace s)))"

text \<open>\<^verbatim>\<open>needle in hay\<close> on strings: \<open>needle\<close> occurs as a contiguous substring.\<close>

fun py_in :: "string \<Rightarrow> string \<Rightarrow> bool" where
  "py_in needle [] = (needle = [])"
| "py_in needle (c # cs) = (prefix needle (c # cs) \<or> py_in needle cs)"

text \<open>
  \<^verbatim>\<open>s.replace(old, new)\<close>: occurrences are replaced from left to right and do not
  overlap; an empty \<open>old\<close> matches before every character and at the end.
\<close>

function replace_scan :: "string \<Rightarrow> string \<Rightarrow> string \<Rightarrow> string" where
  "replace_scan old new s =
     (if old \<noteq> [] \<and> prefix old s then new @ replace_scan old new (drop (length old) s)
      else (case s of [] \<Rightarrow> [] | c # cs \<Rightarrow> c # replace_scan old new cs))"
  by pat_completeness auto
termination
  by (relation "measure (\<lambda>(old, new, s). length s)") (auto simp: prefix_def)

declare replace_scan.simps [simp del]

definition py_replace :: "string \<Rightarrow> string \<Rightarrow> string \<Rightarrow> string" where
  "py_replace old new s =
     (if old = [] then new @ concat (map (\<lambda>c. c # new) s) else replace_scan old new s)"

subsection \<open>\<^verbatim>\<open>int(s, 16)\<close>\<close>

definition hexval :: "char \<Rightarrow> int option" where
  "hexval c = (let n = (of_char c :: nat) in
      if 48 \<le> n \<and> n \<le> 57 then Some (int n - 48)
      else if 97 \<le> n \<and> n \<le> 102 then Some (int n - 87)
      else if 65 \<le> n \<and> n \<le> 70 then Some (int n - 55)
      else None)"

text \<open>
  The digits after the first one: each digit may be preceded by one underscore.
  \<open>acc\<close> is the value read so far.
\<close>

fun hex_digits :: "int \<Rightarrow> string \<Rightarrow> int option" where
  "hex_digits acc [] = Some acc"
| "hex_digits acc [c] = (case hexval c of None \<Rightarrow> None | Some v \<Rightarrow> Some (16 * acc + v))"
| "hex_digits acc (c # d # cs) =
     (if c = CHR ''_'' then
        (case hexval d of None \<Rightarrow> None | Some v \<Rightarrow> hex_digits (16 * acc + v) cs)
      else
        (case hexval c of None \<Rightarrow> None | Some v \<Rightarrow> hex_digits (16 * acc + v) (d # cs)))"

text \<open>An unsigned literal: an optional \<^verbatim>\<open>0x\<close> or \<^verbatim>\<open>0X\<close>, then at least one digit.\<close>

definition hex_unsigned :: "string \<Rightarrow> int option" where
  "hex_unsigned s =
     (case s of
        [] \<Rightarrow> None
      | c # cs \<Rightarrow>
          (if c = CHR ''0'' \<and> (case cs of [] \<Rightarrow> False | x # _ \<Rightarrow> x = CHR ''x'' \<or> x = CHR ''X'')
           then (if tl cs = [] then None else hex_digits 0 (tl cs))
           else (case hexval c of None \<Rightarrow> None | Some v \<Rightarrow> hex_digits v cs)))"

definition hex_signed :: "string \<Rightarrow> int option" where
  "hex_signed s =
     (case s of
        [] \<Rightarrow> None
      | c # cs \<Rightarrow>
          (if c = CHR ''+'' then hex_unsigned cs
           else if c = CHR ''-'' then map_option uminus (hex_unsigned cs)
           else hex_unsigned s))"

text \<open>
  The whitespace \<^verbatim>\<open>int\<close> drops around a literal is narrower than that of
  \<^verbatim>\<open>str.strip\<close>: tab to carriage return and the blank, and the two spaces above
  127; the separators \<open>0x1c\<close> to \<open>0x1f\<close> are not dropped.
\<close>

definition py_int_space :: "char \<Rightarrow> bool" where
  "py_int_space c = (let n = (of_char c :: nat) in
      (9 \<le> n \<and> n \<le> 13) \<or> n = 32 \<or> n = 133 \<or> n = 160)"

definition py_int_strip :: "string \<Rightarrow> string" where
  "py_int_strip s = rev (dropWhile py_int_space (rev (dropWhile py_int_space s)))"

text \<open>
  \<^verbatim>\<open>int(s, 16)\<close>: surrounding whitespace is dropped, then a sign and a literal are read;
  anything else raises \<^verbatim>\<open>ValueError\<close>.
\<close>

definition py_int16 :: "string \<Rightarrow> error + int" where
  "py_int16 s = (case hex_signed (py_int_strip s) of None \<Rightarrow> Inl ValueError | Some v \<Rightarrow> Inr v)"

subsection \<open>\<^verbatim>\<open>hex_to_rgb\<close>\<close>

text \<open>
  \<^verbatim>\<open>
  def hex_to_rgb(hex_color):
      hex_color = hex_color.lstrip('#')
      return tuple(int(hex_color[i:i+2], 16) / 255.0 for i in (0, 2, 4))
  \<close>
  The tuple is a list of three components, built left to right; the first slice that
  does not parse raises.
\<close>

definition hex_to_rgb :: "string \<Rightarrow> error + rat list" where
  "hex_to_rgb hex_color =
     (let h = dropWhile (\<lambda>c. c = CHR ''#'') hex_color in
      bind_err (py_int16 (take 2 h)) (\<lambda>r.
      bind_err (py_int16 (take 2 (drop 2 h))) (\<lambda>g.
      bind_err (py_int16 (take 2 (drop 4 h))) (\<lambda>b.
        Inr [of_int r / 255, of_int g / 255, of_int b / 255]))))"

section \<open>Documents, pages and the PDF libraries\<close>

text \<open>
  A span is the dictionary PyMuPDF returns for a run of text. The value stored under
  \<^verbatim>\<open>"color"\<close> is kept as the source tests it: a number, a tuple or list, or anything
  else; \<open>None\<close> is a span without that key.
\<close>

type_synonym path = string
type_synonym rect = "rat \<times> rat \<times> rat \<times> rat"
type_synonym point = "rat \<times> rat"

datatype color_val = ColNum rat | ColSeq "rat list" | ColOther

record span =
  span_text :: string
  span_font :: string
  span_size :: rat
  span_bbox :: rect
  span_color :: "color_val option"

text \<open>A block of \<^verbatim>\<open>page.get_text("dict")["blocks"]\<close>: only a text block has \<^verbatim>\<open>"lines"\<close>.\<close>

datatype block = TextBlock "span list list" | ImageBlock rect

text \<open>
  The content of a page, in drawing order: the blocks of the file, and what this program
  adds: a filled rectangle (\<^verbatim>\<open>draw_rect\<close>: rectangle, stroke, fill), a text drawn by
  \<^verbatim>\<open>insert_text\<close> (point, text, font size, font name, colour), and the text of the
  ReportLab canvas merged by \<^verbatim>\<open>merge_page\<close> (canvas position, text, font name, font
  size, fill colour).
\<close>

datatype item =
  Blk block
| FilledRect rect "rat list" "rat list"
| InsertedText point string rat string "rat list"
| DrawString point string string rat "rat list"

record page =
  pwidth :: rat
  pheight :: rat
  content :: "item list"

type_synonym document = "page list"

text \<open>A file is a PDF document or bytes that no PDF reader accepts (empty, truncated).\<close>

datatype stored = Pdf document | NotPdf

type_synonym fs = "path \<Rightarrow> stored option"

text \<open>
  What the libraries and the operating system decide, and the source cannot see:
  whether \<^verbatim>\<open>insert_text\<close> accepts a call (the font resolves), what applying a
  redaction leaves of a page, the rectangles \<^verbatim>\<open>search_for\<close> finds, the text PyPDF2
  extracts from a page, whether a destination can be written, whether a save that
  raises has already created the destination, and whether \<^verbatim>\<open>PdfWriter.write\<close>
  completes.
\<close>

record env =
  lib_insert_ok :: "item \<Rightarrow> bool"
  lib_redact :: "rect \<Rightarrow> rat list \<Rightarrow> page \<Rightarrow> page"
  lib_search_for :: "page \<Rightarrow> string \<Rightarrow> rect list"
  lib_extract_text :: "page \<Rightarrow> string"
  lib_can_write :: "path \<Rightarrow> bool"
  lib_save_leaves_file :: "path \<Rightarrow> bool"
  lib_write_ok :: "document \<Rightarrow> bool"

text \<open>\<^verbatim>\<open>fitz.open(path)\<close> and \<^verbatim>\<open>PyPDF2.PdfReader(file)\<close>.\<close>

definition fitz_open :: "fs \<Rightarrow> path \<Rightarrow> error + document" where
  "fitz_open files p =
     (case files p of
        None \<Rightarrow> Inl FileNotFoundError
      | Some NotPdf \<Rightarrow> Inl FileDataError
      | Some (Pdf d) \<Rightarrow> Inr d)"

text \<open>\<^verbatim>\<open>doc[0]\<close>\<close>

definition load_page0 :: "document \<Rightarrow> error + page" where
  "load_page0 doc = (case doc of [] \<Rightarrow> Inl IndexError | p # _ \<Rightarrow> Inr p)"

fun item_blocks :: "item list \<Rightarrow> block list" where
  "item_blocks [] = []"
| "item_blocks (Blk b # xs) = b # item_blocks xs"
| "item_blocks (_ # xs) = item_blocks xs"

definition get_text_blocks :: "page \<Rightarrow> block list" where
  "get_text_blocks p = item_blocks (content p)"

definition draw_rect :: "rect \<Rightarrow> rat list \<Rightarrow> rat list \<Rightarrow> page \<Rightarrow> page" where
  "draw_rect r stroke fill p = p\<lparr>content := content p @ [FilledRect r stroke fill]\<rparr>"

definition insert_text ::
  "env \<Rightarrow> point \<Rightarrow> string \<Rightarrow> rat \<Rightarrow> string \<Rightarrow> rat list \<Rightarrow> page \<Rightarrow> error + page" where
  "insert_text E pt txt fontsize fontname col p =
     (if lib_insert_ok E (InsertedText pt txt fontsize fontname col)
      then Inr (p\<lparr>content := content p @ [InsertedText pt txt fontsize fontname col]\<rparr>)
      else Inl ValueError)"

text \<open>\<^verbatim>\<open>page.add_redact_annot(rect, fill=...)\<close> followed by \<^verbatim>\<open>page.apply_redactions()\<close>.\<close>

definition redact :: "env \<Rightarrow> rect \<Rightarrow> rat list \<Rightarrow> page \<Rightarrow> page" where
  "redact E r fill p = lib_redact E r fill p"

text \<open>
  \<^verbatim>\<open>output_path.parent.mkdir(parents=True, exist_ok=True); doc.save(output_path)\<close>
  for a document opened from \<open>inp\<close>. Whether the save completes is the library's to
  say (\<open>lib_can_write\<close>); when it does, the destination holds the document. A save
  that raises may have created the destination already (\<open>lib_save_leaves_file\<close>):
  the file it leaves holds no document, and whatever was at the destination is gone.
  A save onto the file the document was opened from, which PyMuPDF refuses unless it is
  incremental, raises before anything is written: that file is never left truncated.
  The result is the raise or the return together with the file system the save leaves.
\<close>

definition doc_save :: "env \<Rightarrow> path \<Rightarrow> document \<Rightarrow> path \<Rightarrow> fs \<Rightarrow> (error + unit) \<times> fs" where
  "doc_save E inp doc outp files =
     (if lib_can_write E outp then (Inr (), files(outp \<mapsto> Pdf doc))
      else if outp \<noteq> inp \<and> lib_save_leaves_file E outp then (Inl OSError, files(outp \<mapsto> NotPdf))
      else (Inl PermissionError, files))"

text \<open>
  \<^verbatim>\<open>doc.new_page(width=w, height=h)\<close>: the page number defaults to \<open>-1\<close>, so the empty
  page is added after the last page; the returned page object is that last page.
\<close>

definition new_page :: "rat \<Rightarrow> rat \<Rightarrow> document \<Rightarrow> document" where
  "new_page w h doc = doc @ [\<lparr>pwidth = w, pheight = h, content = []\<rparr>]"

definition delete_page :: "nat \<Rightarrow> document \<Rightarrow> error + document" where
  "delete_page n doc =
     (if n < length doc then Inr (take n doc @ drop (Suc n) doc) else Inl ValueError)"

text \<open>
  \<^verbatim>\<open>Document.insert_page(pno, text=None, fontsize=11, width=595, height=842, ...)\<close>
  creates an empty page in front of page \<open>pno\<close> and writes \<open>text\<close> on it. Its second
  parameter is the text: a string is split into lines and drawn at \<open>(50, 72)\<close>, and a
  page object, which has no lines to split, raises.
\<close>

datatype py_arg = PyNone | PyStr string | PyPageObject

definition insert_page :: "env \<Rightarrow> nat \<Rightarrow> py_arg \<Rightarrow> document \<Rightarrow> error + document" where
  "insert_page E pno txt doc =
     (let blank = \<lparr>pwidth = 595, pheight = 842, content = []\<rparr> in
      case txt of
        PyNone \<Rightarrow> Inr (take pno doc @ [blank] @ drop pno doc)
      | PyStr s \<Rightarrow>
          (if s = [] then Inr (take pno doc @ [blank] @ drop pno doc)
           else bind_err (insert_text E (50, 72) s 11 ''helv'' [0] blank)
                  (\<lambda>p. Inr (take pno doc @ [p] @ drop pno doc)))
      | PyPageObject \<Rightarrow> Inl AttributeError)"

text \<open>All text on a page, in drawing order, and the same as one string.\<close>

fun item_texts :: "item \<Rightarrow> string list" where
  "item_texts (Blk (TextBlock ls)) = map span_text (concat ls)"
| "item_texts (Blk (ImageBlock _)) = []"
| "item_texts (FilledRect _ _ _) = []"
| "item_texts (InsertedText _ t _ _ _) = [t]"
| "item_texts (DrawString _ t _ _ _) = [t]"

definition page_texts :: "page \<Rightarrow> string list" where
  "page_texts p = concat (map item_texts (content p))"

definition page_text :: "page \<Rightarrow> string" where
  "page_text p = concat (map (\<lambda>t. t @ [CHR 10]) (page_texts p))"

section \<open>The strategies\<close>

subsection \<open>Finding the target span\<close>

text \<open>
  \<^verbatim>\<open>
  target_span = None
  for block in blocks:
      if "lines" in block:
          for line in block["lines"]:
              for span in line["spans"]:
                  if old_text in span["text"]:
                      target_span = span
                      break
              if target_span: break
          if target_span: break
  \<close>
\<close>

fun find_in_spans :: "string \<Rightarrow> span list \<Rightarrow> span option" where
  "find_in_spans old_text [] = None"
| "find_in_spans old_text (sp # sps) =
     (if py_in old_text (span_text sp) then Some sp else find_in_spans old_text sps)"

fun find_in_lines :: "string \<Rightarrow> span list list \<Rightarrow> span option" where
  "find_in_lines old_text [] = None"
| "find_in_lines old_text (l # ls) =
     (case find_in_spans old_text l of
        Some sp \<Rightarrow> Some sp
      | None \<Rightarrow> find_in_lines old_text ls)"

fun find_target_span :: "string \<Rightarrow> block list \<Rightarrow> span option" where
  "find_target_span old_text [] = None"
| "find_target_span old_text (TextBlock ls # bs) =
     (case find_in_lines old_text ls of
        Some sp \<Rightarrow> Some sp
      | None \<Rightarrow> find_target_span old_text bs)"
| "find_target_span old_text (ImageBlock r # bs) = find_target_span old_text bs"

subsection \<open>The strategies that edit the page in place\<close>

text \<open>
  Each strategy is a \<^verbatim>\<open>try\<close> block whose handler returns \<^verbatim>\<open>False\<close>. The body is the
  \<open>_body\<close> function: it returns the raise (\<open>Inl\<close>) or the returned truth value
  (\<open>Inr\<close>) together with the file system it leaves. \<open>step\<close> is a statement in front
  of the save: when it raises, the file system is as the strategy found it. The save is
  the last statement that can raise, and what it leaves when it raises stays: the
  handler \<open>except_return_False\<close> only turns the raise into \<^verbatim>\<open>False\<close>.
\<close>

definition step :: "fs \<Rightarrow> error + 'a \<Rightarrow> ('a \<Rightarrow> (error + bool) \<times> fs) \<Rightarrow> (error + bool) \<times> fs" where
  "step files m f = (case m of Inl e \<Rightarrow> (Inl e, files) | Inr x \<Rightarrow> f x)"

definition except_return_False :: "(error + bool) \<times> fs \<Rightarrow> bool \<times> fs" where
  "except_return_False r =
     (case r of (Inl e, files') \<Rightarrow> (False, files') | (Inr ok, files') \<Rightarrow> (ok, files'))"

text \<open>
  \<^verbatim>\<open>replace_text_clean\<close> draws a white rectangle over the span's box widened by 3 and
  writes the new text at \<open>(bbox[0], bbox[3] - 5)\<close>.
\<close>

definition replace_text_clean_body ::
  "env \<Rightarrow> fs \<Rightarrow> path \<Rightarrow> path \<Rightarrow> string \<Rightarrow> string \<Rightarrow> (error + bool) \<times> fs" where
  "replace_text_clean_body E files inp outp old_text new_text =
     step files (fitz_open files inp) (\<lambda>doc.
     step files (load_page0 doc) (\<lambda>page.
       case find_target_span old_text (get_text_blocks page) of
         None \<Rightarrow> (Inr False, files)
       | Some target_span \<Rightarrow>
           (case span_bbox target_span of (x0, y0, x1, y1) \<Rightarrow>
              let expanded_rect = (x0 - 3, y0 - 3, x1 + 3, y1 + 3) in
              step files (hex_to_rgb ''#0066cc'') (\<lambda>col.
              step files (insert_text E (x0, y1 - 5) new_text
                          (span_size target_span) (span_font target_span) col
                          (draw_rect expanded_rect [1, 1, 1] [1, 1, 1] page)) (\<lambda>page2.
              (case doc_save E inp (doc[0 := page2]) outp files of
                 (Inl e, files') \<Rightarrow> (Inl e, files')
               | (Inr u, files') \<Rightarrow> (Inr True, files')))))))"

definition replace_text_clean ::
  "env \<Rightarrow> fs \<Rightarrow> path \<Rightarrow> path \<Rightarrow> string \<Rightarrow> string \<Rightarrow> bool \<times> fs" where
  "replace_text_clean E files inp outp old_text new_text =
     except_return_False (replace_text_clean_body E files inp outp old_text new_text)"

text \<open>
  \<^verbatim>\<open>replace_text_minimal\<close> redacts the span's box widened by 2 and writes the new text
  at \<open>(bbox[0], bbox[3] - 2)\<close>.
\<close>

definition replace_text_minimal_body ::
  "env \<Rightarrow> fs \<Rightarrow> path \<Rightarrow> path \<Rightarrow> string \<Rightarrow> string \<Rightarrow> (error + bool) \<times> fs" where
  "replace_text_minimal_body E files inp outp old_text new_text =
     step files (fitz_open files inp) (\<lambda>doc.
     step files (load_page0 doc) (\<lambda>page.
       case find_target_span old_text (get_text_blocks page) of
         None \<Rightarrow> (Inr False, files)
       | Some target_span \<Rightarrow>
           (case span_bbox target_span of (x0, y0, x1, y1) \<Rightarrow>
              let expanded_rect = (x0 - 2, y0 - 2, x1 + 2, y1 + 2) in
              step files (hex_to_rgb ''#0066cc'') (\<lambda>col.
              step files (insert_text E (x0, y1 - 2) new_text
                          (span_size target_span) (span_font target_span) col
                          (redact E expanded_rect [1, 1, 1] page)) (\<lambda>page2.
              (case doc_save E inp (doc[0 := page2]) outp files of
                 (Inl e, files') \<Rightarrow> (Inl e, files')
               | (Inr u, files') \<Rightarrow> (Inr True, files')))))))"

definition replace_text_minimal ::
  "env \<Rightarrow> fs \<Rightarrow> path \<Rightarrow> path \<Rightarrow> string \<Rightarrow> string \<Rightarrow> bool \<times> fs" where
  "replace_text_minimal E files inp outp old_text new_text =
     except_return_False (replace_text_minimal_body E files inp outp old_text new_text)"

text \<open>
  \<^verbatim>\<open>replace_text_overlay\<close> redacts the span's box itself and writes the new text at
  \<open>(rect.x0, rect.y1 - 2)\<close>.
\<close>

definition replace_text_overlay_body ::
  "env \<Rightarrow> fs \<Rightarrow> path \<Rightarrow> path \<Rightarrow> string \<Rightarrow> string \<Rightarrow> (error + bool) \<times> fs" where
  "replace_text_overlay_body E files inp outp old_text new_text =
     step files (fitz_open files inp) (\<lambda>doc.
     step files (load_page0 doc) (\<lambda>page.
       case find_target_span old_text (get_text_blocks page) of
         None \<Rightarrow> (Inr False, files)
       | Some target_span \<Rightarrow>
           (case span_bbox target_span of (x0, y0, x1, y1) \<Rightarrow>
              let rect = (x0, y0, x1, y1) in
              step files (hex_to_rgb ''#0066cc'') (\<lambda>col.
              step files (insert_text E (x0, y1 - 2) new_text
                          (span_size target_span) (span_font target_span) col
                          (redact E rect [1, 1, 1] page)) (\<lambda>page2.
              (case doc_save E inp (doc[0 := page2]) outp files of
                 (Inl e, files') \<Rightarrow> (Inl e, files')
               | (Inr u, files') \<Rightarrow> (Inr True, files')))))))"

definition replace_text_overlay ::
  "env \<Rightarrow> fs \<Rightarrow> path \<Rightarrow> path \<Rightarrow> string \<Rightarrow> string \<Rightarrow> bool \<times> fs" where
  "replace_text_overlay E files inp outp old_text new_text =
     except_return_False (replace_text_overlay_body E files inp outp old_text new_text)"

subsection \<open>The strategies that rebuild the page\<close>

text \<open>
  The colour of a copied span that does not contain the new text:
  \<^verbatim>\<open>
  color = span.get("color", (0, 0, 0))
  if isinstance(color, (int, float)):
      if color > 0: color = (0, 0, 0)
      else:         color = (0, 0, 0)
  elif not isinstance(color, (tuple, list)) or len(color) not in [1, 3, 4]:
      color = (0, 0, 0)
  \<close>
\<close>

definition other_span_color :: "color_val option \<Rightarrow> rat list" where
  "other_span_color c =
     (case c of
        None \<Rightarrow> [0, 0, 0]
      | Some (ColNum n) \<Rightarrow> (if n > 0 then [0, 0, 0] else [0, 0, 0])
      | Some (ColSeq cs) \<Rightarrow> (if length cs \<notin> {1, 3, 4} then [0, 0, 0] else cs)
      | Some ColOther \<Rightarrow> [0, 0, 0])"

text \<open>The text a span is copied with: \<open>old_text\<close> replaced where it occurs.\<close>

definition copied_text :: "string \<Rightarrow> string \<Rightarrow> span \<Rightarrow> string" where
  "copied_text old_text new_text sp =
     (if py_in old_text (span_text sp) then py_replace old_text new_text (span_text sp)
      else span_text sp)"

text \<open>The body of the innermost loop: one span is copied to the new page, or skipped.\<close>

definition copy_span :: "env \<Rightarrow> string \<Rightarrow> string \<Rightarrow> span \<Rightarrow> page \<Rightarrow> error + page" where
  "copy_span E old_text new_text sp np =
     (let text = copied_text old_text new_text sp in
      if py_strip text \<noteq> [] then
        bind_err (if py_in new_text text then hex_to_rgb ''#0066cc''
                  else Inr (other_span_color (span_color sp))) (\<lambda>col.
          case span_bbox sp of (x0, y0, x1, y1) \<Rightarrow>
            insert_text E (x0, y1 - 2) text (span_size sp) (span_font sp) col np)
      else Inr np)"

fun copy_spans :: "env \<Rightarrow> string \<Rightarrow> string \<Rightarrow> span list \<Rightarrow> page \<Rightarrow> error + page" where
  "copy_spans E old_text new_text [] np = Inr np"
| "copy_spans E old_text new_text (sp # sps) np =
     (case copy_span E old_text new_text sp np of
        Inl e \<Rightarrow> Inl e
      | Inr np' \<Rightarrow> copy_spans E old_text new_text sps np')"

fun copy_lines :: "env \<Rightarrow> string \<Rightarrow> string \<Rightarrow> span list list \<Rightarrow> page \<Rightarrow> error + page" where
  "copy_lines E old_text new_text [] np = Inr np"
| "copy_lines E old_text new_text (l # ls) np =
     (case copy_spans E old_text new_text l np of
        Inl e \<Rightarrow> Inl e
      | Inr np' \<Rightarrow> copy_lines E old_text new_text ls np')"

fun copy_blocks :: "env \<Rightarrow> string \<Rightarrow> string \<Rightarrow> block list \<Rightarrow> page \<Rightarrow> error + page" where
  "copy_blocks E old_text new_text [] np = Inr np"
| "copy_blocks E old_text new_text (TextBlock ls # bs) np =
     (case copy_lines E old_text new_text ls np of
        Inl e \<Rightarrow> Inl e
      | Inr np' \<Rightarrow> copy_blocks E old_text new_text bs np')"
| "copy_blocks E old_text new_text (ImageBlock r # bs) np =
     copy_blocks E old_text new_text bs np"

text \<open>
  \<^verbatim>\<open>replace_text_direct\<close>: the new page is added after the last page and filled with the
  copied spans; then
  \<^verbatim>\<open>
  doc.delete_page(0)
  doc.insert_page(0, new_page)
  \<close>
  removes the original first page and passes the page object where
  \<^verbatim>\<open>insert_page\<close> takes its text.
\<close>

definition replace_text_direct_body ::
  "env \<Rightarrow> fs \<Rightarrow> path \<Rightarrow> path \<Rightarrow> string \<Rightarrow> string \<Rightarrow> (error + bool) \<times> fs" where
  "replace_text_direct_body E files inp outp old_text new_text =
     step files (fitz_open files inp) (\<lambda>doc.
     step files (load_page0 doc) (\<lambda>page.
       let blocks = get_text_blocks page in
       case find_target_span old_text blocks of
         None \<Rightarrow> (Inr False, files)
       | Some target_span \<Rightarrow>
           (let doc1 = new_page (pwidth page) (pheight page) doc in
            step files (copy_blocks E old_text new_text blocks (last doc1)) (\<lambda>np.
            step files (delete_page 0 (butlast doc1 @ [np])) (\<lambda>doc2.
            step files (insert_page E 0 PyPageObject doc2) (\<lambda>doc3.
            (case doc_save E inp doc3 outp files of
                 (Inl e, files') \<Rightarrow> (Inl e, files')
               | (Inr u, files') \<Rightarrow> (Inr True, files'))))))))"

definition replace_text_direct ::
  "env \<Rightarrow> fs \<Rightarrow> path \<Rightarrow> path \<Rightarrow> string \<Rightarrow> string \<Rightarrow> bool \<times> fs" where
  "replace_text_direct E files inp outp old_text new_text =
     except_return_False (replace_text_direct_body E files inp outp old_text new_text)"

text \<open>\<^verbatim>\<open>replace_text_precise\<close> repeats the statements of \<^verbatim>\<open>replace_text_direct\<close>.\<close>

definition replace_text_precise_body ::
  "env \<Rightarrow> fs \<Rightarrow> path \<Rightarrow> path \<Rightarrow> string \<Rightarrow> string \<Rightarrow> (error + bool) \<times> fs" where
  "replace_text_precise_body E files inp outp old_text new_text =
     step files (fitz_open files inp) (\<lambda>doc.
     step files (load_page0 doc) (\<lambda>page.
       let blocks = get_text_blocks page in
       case find_target_span old_text blocks of
         None \<Rightarrow> (Inr False, files)
       | Some target_span \<Rightarrow>
           (let doc1 = new_page (pwidth page) (pheight page) doc in
            step files (copy_blocks E old_text new_text blocks (last doc1)) (\<lambda>np.
            step files (delete_page 0 (butlast doc1 @ [np])) (\<lambda>doc2.
            step files (insert_page E 0 PyPageObject doc2) (\<lambda>doc3.
            (case doc_save E inp doc3 outp files of
                 (Inl e, files') \<Rightarrow> (Inl e, files')
               | (Inr u, files') \<Rightarrow> (Inr True, files'))))))))"

definition replace_text_precise ::
  "env \<Rightarrow> fs \<Rightarrow> path \<Rightarrow> path \<Rightarrow> string \<Rightarrow> string \<Rightarrow> bool \<times> fs" where
  "replace_text_precise E files inp outp old_text new_text =
     except_return_False (replace_text_precise_body E files inp outp old_text new_text)"

subsection \<open>The standard strategy\<close>

text \<open>
  \<^verbatim>\<open>
  for rect in text_instances:
      page.add_redact_annot(rect, fill=(1, 1, 1))
      page.apply_redactions()
      point = fitz.Point(rect.x0, rect.y1 - 2)
      color = hex_to_rgb("#0066cc")
      page.insert_text(point, new_text, fontsize=target_span["size"],
                       fontname=target_span["font"], color=color)
  \<close>
\<close>

fun replace_instances :: "env \<Rightarrow> string \<Rightarrow> span \<Rightarrow> rect list \<Rightarrow> page \<Rightarrow> error + page" where
  "replace_instances E new_text target_span [] page = Inr page"
| "replace_instances E new_text target_span ((x0, y0, x1, y1) # rs) page =
     (case hex_to_rgb ''#0066cc'' of
        Inl e \<Rightarrow> Inl e
      | Inr col \<Rightarrow>
          (case insert_text E (x0, y1 - 2) new_text
                  (span_size target_span) (span_font target_span) col
                  (redact E (x0, y0, x1, y1) [1, 1, 1] page) of
             Inl e \<Rightarrow> Inl e
           | Inr page' \<Rightarrow> replace_instances E new_text target_span rs page'))"

definition replace_text_in_pdf_body ::
  "env \<Rightarrow> fs \<Rightarrow> path \<Rightarrow> path \<Rightarrow> string \<Rightarrow> string \<Rightarrow> (error + bool) \<times> fs" where
  "replace_text_in_pdf_body E files inp outp old_text new_text =
     step files (fitz_open files inp) (\<lambda>doc.
     step files (load_page0 doc) (\<lambda>page.
       case find_target_span old_text (get_text_blocks page) of
         None \<Rightarrow> (Inr False, files)
       | Some target_span \<Rightarrow>
           (let text_instances = lib_search_for E page old_text in
            if text_instances = [] then (Inr False, files)
            else
              step files (replace_instances E new_text target_span text_instances page) (\<lambda>page2.
              (case doc_save E inp (doc[0 := page2]) outp files of
                 (Inl e, files') \<Rightarrow> (Inl e, files')
               | (Inr u, files') \<Rightarrow> (Inr True, files'))))))"

definition replace_text_in_pdf ::
  "env \<Rightarrow> fs \<Rightarrow> path \<Rightarrow> path \<Rightarrow> string \<Rightarrow> string \<Rightarrow> bool \<times> fs" where
  "replace_text_in_pdf E files inp outp old_text new_text =
     except_return_False (replace_text_in_pdf_body E files inp outp old_text new_text)"

subsection \<open>The simple strategy\<close>

text \<open>
  The ReportLab canvas of letter size (612 by 792) with \<^verbatim>\<open>"PD Report"\<close> drawn in
  Helvetica-Bold 24, blue, at \<open>(50, height - 100)\<close>, read back as a page.
\<close>

definition watermark_page :: page where
  "watermark_page =
     \<lparr>pwidth = 612, pheight = 792,
      content = [DrawString (50, 792 - 100) ''PD Report'' ''Helvetica-Bold'' 24 [0, 0, 1]]\<rparr>"

definition merge_page :: "page \<Rightarrow> page \<Rightarrow> page" where
  "merge_page p w = p\<lparr>content := content p @ content w\<rparr>"

text \<open>
  \<^verbatim>\<open>
  for page_num, page in enumerate(pdf_reader.pages):
      if page_num == 0:
          page_text = page.extract_text()
          if "KYC Report" in page_text:
              ...
              page.merge_page(watermark_page)
      pdf_writer.add_page(page)
  \<close>
\<close>

fun simple_pages :: "env \<Rightarrow> nat \<Rightarrow> page list \<Rightarrow> page list" where
  "simple_pages E page_num [] = []"
| "simple_pages E page_num (p # ps) =
     (if page_num = 0 then
        (if py_in ''KYC Report'' (lib_extract_text E p) then merge_page p watermark_page else p)
      else p) # simple_pages E (Suc page_num) ps"

definition pdf_reader :: "fs \<Rightarrow> path \<Rightarrow> error + page list" where
  "pdf_reader files p =
     (case files p of
        None \<Rightarrow> Inl FileNotFoundError
      | Some NotPdf \<Rightarrow> Inl FileDataError
      | Some (Pdf d) \<Rightarrow> Inr d)"

text \<open>
  \<^verbatim>\<open>
  output_path.parent.mkdir(parents=True, exist_ok=True)
  with open(output_path, 'wb') as output_file:
      pdf_writer.write(output_file)
  return True
  \<close>
  Opening the destination creates or empties it before anything is written, so this
  body returns the file system with its result: a raise of \<^verbatim>\<open>write\<close> leaves the
  opened file behind.
\<close>

definition process_pdf_simple_body :: "env \<Rightarrow> fs \<Rightarrow> path \<Rightarrow> path \<Rightarrow> (error + bool) \<times> fs" where
  "process_pdf_simple_body E files inp outp =
     (case pdf_reader files inp of
        Inl e \<Rightarrow> (Inl e, files)
      | Inr pages \<Rightarrow>
          (let out = simple_pages E 0 pages in
           if \<not> lib_can_write E outp then (Inl PermissionError, files)
           else
             (let opened = files(outp \<mapsto> NotPdf) in
              if lib_write_ok E out then (Inr True, opened(outp \<mapsto> Pdf out))
              else (Inl ValueError, opened))))"

definition process_pdf_simple :: "env \<Rightarrow> fs \<Rightarrow> path \<Rightarrow> path \<Rightarrow> bool \<times> fs" where
  "process_pdf_simple E files inp outp =
     (case process_pdf_simple_body E files inp outp of
        (Inl e, files') \<Rightarrow> (False, files')
      | (Inr ok, files') \<Rightarrow> (ok, files'))"

section \<open>The pipeline\<close>

text \<open>
  The state of the pipeline is the file system together with the names of the strategy
  functions called so far, oldest first. The second component is bookkeeping of the
  model: it records each call \<^verbatim>\<open>process_pdf\<close> makes.
\<close>

type_synonym world = "fs \<times> string list"

definition attempt :: "string \<Rightarrow> (fs \<Rightarrow> bool \<times> fs) \<Rightarrow> world \<Rightarrow> bool \<times> world" where
  "attempt name strategy w =
     (case strategy (fst w) of (ok, files') \<Rightarrow> (ok, (files', snd w @ [name])))"

text \<open>
  \<^verbatim>\<open>process_pdf\<close> is seven \<^verbatim>\<open>if method == ...\<close> blocks in a row; a block whose
  strategy fails assigns the next name to \<^verbatim>\<open>method\<close> and falls into the next block.
  \<open>process_pdf_from_X\<close> is the function from block \<open>X\<close> to the end.
\<close>

definition process_pdf_from_simple ::
  "env \<Rightarrow> path \<Rightarrow> path \<Rightarrow> string \<Rightarrow> world \<Rightarrow> bool \<times> world" where
  "process_pdf_from_simple E inp outp method w =
     (if method = ''simple'' then
        attempt ''simple'' (\<lambda>files. process_pdf_simple E files inp outp) w
      else (False, w))"

definition process_pdf_from_standard ::
  "env \<Rightarrow> path \<Rightarrow> path \<Rightarrow> string \<Rightarrow> world \<Rightarrow> bool \<times> world" where
  "process_pdf_from_standard E inp outp method w =
     (if method = ''standard'' then
        (case attempt ''standard''
                (\<lambda>files. replace_text_in_pdf E files inp outp ''KYC Report'' ''PD Report'') w of
           (True, w') \<Rightarrow> (True, w')
         | (False, w') \<Rightarrow> process_pdf_from_simple E inp outp ''simple'' w')
      else process_pdf_from_simple E inp outp method w)"

definition process_pdf_from_precise ::
  "env \<Rightarrow> path \<Rightarrow> path \<Rightarrow> string \<Rightarrow> world \<Rightarrow> bool \<times> world" where
  "process_pdf_from_precise E inp outp method w =
     (if method = ''precise'' then
        (case attempt ''precise''
                (\<lambda>files. replace_text_precise E files inp outp ''KYC Report'' ''PD Report'') w of
           (True, w') \<Rightarrow> (True, w')
         | (False, w') \<Rightarrow> process_pdf_from_standard E inp outp ''standard'' w')
      else process_pdf_from_standard E inp outp method w)"

definition process_pdf_from_overlay ::
  "env \<Rightarrow> path \<Rightarrow> path \<Rightarrow> string \<Rightarrow> world \<Rightarrow> bool \<times> world" where
  "process_pdf_from_overlay E inp outp method w =
     (if method = ''overlay'' then
        (case attempt ''overlay''
                (\<lambda>files. replace_text_overlay E files inp outp ''KYC Report'' ''PD Report'') w of
           (True, w') \<Rightarrow> (True, w')
         | (False, w') \<Rightarrow> process_pdf_from_precise E inp outp ''precise'' w')
      else process_pdf_from_precise E inp outp method w)"

definition process_pdf_from_direct ::
  "env \<Rightarrow> path \<Rightarrow> path \<Rightarrow> string \<Rightarrow> world \<Rightarrow> bool \<times> world" where
  "process_pdf_from_direct E inp outp method w =
     (if method = ''direct'' then
        (case attempt ''direct''
                (\<lambda>files. replace_text_direct E files inp outp ''KYC Report'' ''PD Report'') w of
           (True, w') \<Rightarrow> (True, w')
         | (False, w') \<Rightarrow> process_pdf_from_overlay E inp outp ''overlay'' w')
      else process_pdf_from_overlay E inp outp method w)"

definition process_pdf_from_minimal ::
  "env \<Rightarrow> path \<Rightarrow> path \<Rightarrow> string \<Rightarrow> world \<Rightarrow> bool \<times> world" where
  "process_pdf_from_minimal E inp outp method w =
     (if method = ''minimal'' then
        (case attempt ''minimal''
                (\<lambda>files. replace_text_minimal E files inp outp ''KYC Report'' ''PD Report'') w of
           (True, w') \<Rightarrow> (True, w')
         | (False, w') \<Rightarrow> process_pdf_from_direct E inp outp ''direct'' w')
      else process_pdf_from_direct E inp outp method w)"

definition process_pdf :: "env \<Rightarrow> path \<Rightarrow> path \<Rightarrow> string \<Rightarrow> world \<Rightarrow> bool \<times> world" where
  "process_pdf E inp outp method w =
     (if method = ''clean'' then
        (case attempt ''clean''
                (\<lambda>files. replace_text_clean E files inp outp ''KYC Report'' ''PD Report'') w of
           (True, w') \<Rightarrow> (True, w')
         | (False, w') \<Rightarrow> process_pdf_from_minimal E inp outp ''minimal'' w')
      else process_pdf_from_minimal E inp outp method w)"

section \<open>The fallback order as the specification words it\<close>

text \<open>
  The specification describes the pipeline as a list of strategy names run in order
  until one reports success. \<open>run_strategy\<close> calls a strategy by its name, with the
  texts \<^verbatim>\<open>process_pdf\<close> passes; \<open>run_order\<close> is the specification's runner, and
  \<open>attempted\<close> is the list of names it calls: up to and including the first
  success, or all of them.
\<close>

definition default_order :: "string list" where
  "default_order = [''clean'', ''minimal'', ''direct'', ''overlay'', ''precise'', ''standard'', ''simple'']"

definition run_strategy :: "env \<Rightarrow> path \<Rightarrow> path \<Rightarrow> string \<Rightarrow> fs \<Rightarrow> bool \<times> fs" where
  "run_strategy E inp outp name files =
     (if name = ''clean'' then replace_text_clean E files inp outp ''KYC Report'' ''PD Report''
      else if name = ''minimal'' then replace_text_minimal E files inp outp ''KYC Report'' ''PD Report''
      else if name = ''direct'' then replace_text_direct E files inp outp ''KYC Report'' ''PD Report''
      else if name = ''overlay'' then replace_text_overlay E files inp outp ''KYC Report'' ''PD Report''
      else if name = ''precise'' then replace_text_precise E files inp outp ''KYC Report'' ''PD Report''
      else if name = ''standard'' then replace_text_in_pdf E files inp outp ''KYC Report'' ''PD Report''
      else if name = ''simple'' then process_pdf_simple E files inp outp
      else (False, files))"

fun run_order :: "env \<Rightarrow> path \<Rightarrow> path \<Rightarrow> string list \<Rightarrow> world \<Rightarrow> bool \<times> world" where
  "run_order E inp outp [] w = (False, w)"
| "run_order E inp outp (s # ss) w =
     (case attempt s (run_strategy E inp outp s) w of
        (True, w') \<Rightarrow> (True, w')
      | (False, w') \<Rightarrow> run_order E inp outp ss w')"

fun attempted :: "(string \<Rightarrow> bool) \<Rightarrow> string list \<Rightarrow> string list" where
  "attempted ok [] = []"
| "attempted ok (s # ss) = (if ok s then [s] else s # attempted ok ss)"

text \<open>Whether the body of a strategy, called by name, ends in a raise.\<close>

definition strategy_raises :: "env \<Rightarrow> path \<Rightarrow> path \<Rightarrow> string \<Rightarrow> fs \<Rightarrow> bool" where
  "strategy_raises E inp outp name files =
     (if name = ''clean'' then isl (fst (replace_text_clean_body E files inp outp ''KYC Report'' ''PD Report''))
      else if name = ''minimal'' then isl (fst (replace_text_minimal_body E files inp outp ''KYC Report'' ''PD Report''))
      else if name = ''direct'' then isl (fst (replace_text_direct_body E files inp outp ''KYC Report'' ''PD Report''))
      else if name = ''overlay'' then isl (fst (replace_text_overlay_body E files inp outp ''KYC Report'' ''PD Report''))
      else if name = ''precise'' then isl (fst (replace_text_precise_body E files inp outp ''KYC Report'' ''PD Report''))
      else if name = ''standard'' then isl (fst (replace_text_in_pdf_body E files inp outp ''KYC Report'' ''PD Report''))
      else if name = ''simple'' then isl (fst (process_pdf_simple_body E files inp outp))
      else False)"

section \<open>The strategies as page edits\<close>

text \<open>
  The four strategies that edit page 0 in place share one frame: open the source, take
  page 0, edit it, and save the document with the edited page in place of page 0. The
  edit is \<open>Inr None\<close> when the text is not found.
\<close>

definition in_place ::
  "env \<Rightarrow> fs \<Rightarrow> path \<Rightarrow> path \<Rightarrow> (page \<Rightarrow> error + page option) \<Rightarrow> (error + bool) \<times> fs" where
  "in_place E files inp outp edit =
     step files (fitz_open files inp) (\<lambda>doc.
     step files (load_page0 doc) (\<lambda>page.
     step files (edit page) (\<lambda>r.
       case r of
         None \<Rightarrow> (Inr False, files)
       | Some page2 \<Rightarrow>
           (case doc_save E inp (doc[0 := page2]) outp files of
              (Inl e, files') \<Rightarrow> (Inl e, files')
            | (Inr u, files') \<Rightarrow> (Inr True, files')))))"

definition clean_edit :: "env \<Rightarrow> string \<Rightarrow> string \<Rightarrow> page \<Rightarrow> error + page option" where
  "clean_edit E old_text new_text page =
     (case find_target_span old_text (get_text_blocks page) of
        None \<Rightarrow> Inr None
      | Some target_span \<Rightarrow>
          (case span_bbox target_span of (x0, y0, x1, y1) \<Rightarrow>
             bind_err (hex_to_rgb ''#0066cc'') (\<lambda>col.
             bind_err (insert_text E (x0, y1 - 5) new_text
                         (span_size target_span) (span_font target_span) col
                         (draw_rect (x0 - 3, y0 - 3, x1 + 3, y1 + 3) [1, 1, 1] [1, 1, 1] page))
               (\<lambda>page2. Inr (Some page2)))))"

definition minimal_edit :: "env \<Rightarrow> string \<Rightarrow> string \<Rightarrow> page \<Rightarrow> error + page option" where
  "minimal_edit E old_text new_text page =
     (case find_target_span old_text (get_text_blocks page) of
        None \<Rightarrow> Inr None
      | Some target_span \<Rightarrow>
          (case span_bbox target_span of (x0, y0, x1, y1) \<Rightarrow>
             bind_err (hex_to_rgb ''#0066cc'') (\<lambda>col.
             bind_err (insert_text E (x0, y1 - 2) new_text
                         (span_size target_span) (span_font target_span) col
                         (redact E (x0 - 2, y0 - 2, x1 + 2, y1 + 2) [1, 1, 1] page))
               (\<lambda>page2. Inr (Some page2)))))"

definition overlay_edit :: "env \<Rightarrow> string \<Rightarrow> string \<Rightarrow> page \<Rightarrow> error + page option" where
  "overlay_edit E old_text new_text page =
     (case find_target_span old_text (get_text_blocks page) of
        None \<Rightarrow> Inr None
      | Some target_span \<Rightarrow>
          (case span_bbox target_span of (x0, y0, x1, y1) \<Rightarrow>
             bind_err (hex_to_rgb ''#0066cc'') (\<lambda>col.
             bind_err (insert_text E (x0, y1 - 2) new_text
                         (span_size target_span) (span_font target_span) col
                         (redact E (x0, y0, x1, y1) [1, 1, 1] page))
               (\<lambda>page2. Inr (Some page2)))))"

definition standard_edit :: "env \<Rightarrow> string \<Rightarrow> string \<Rightarrow> page \<Rightarrow> error + page option" where
  "standard_edit E old_text new_text page =
     (case find_target_span old_text (get_text_blocks page) of
        None \<Rightarrow> Inr None
      | Some target_span \<Rightarrow>
          (if lib_search_for E page old_text = [] then Inr None
           else bind_err (replace_instances E new_text target_span
                            (lib_search_for E page old_text) page)
                  (\<lambda>page2. Inr (Some page2))))"

section \<open>Sample inputs\<close>

text \<open>
  A library that accepts every call: a redaction removes the spans whose box meets the
  rectangle and paints the fill, the search returns the boxes of the spans that contain
  the needle, the extracted text is the text on the page, and every save and every
  write completes.
\<close>

definition rect_meets :: "rect \<Rightarrow> rect \<Rightarrow> bool" where
  "rect_meets a b =
     (case a of (ax0, ay0, ax1, ay1) \<Rightarrow>
      case b of (bx0, by0, bx1, by1) \<Rightarrow> ax0 < bx1 \<and> bx0 < ax1 \<and> ay0 < by1 \<and> by0 < ay1)"

fun redact_item :: "rect \<Rightarrow> item \<Rightarrow> item" where
  "redact_item r (Blk (TextBlock ls)) =
     Blk (TextBlock (map (filter (\<lambda>sp. \<not> rect_meets r (span_bbox sp))) ls))"
| "redact_item r it = it"

fun block_spans :: "block \<Rightarrow> span list" where
  "block_spans (TextBlock ls) = concat ls"
| "block_spans (ImageBlock r) = []"

definition env0 :: env where
  "env0 =
     \<lparr>lib_insert_ok = (\<lambda>it. True),
      lib_redact = (\<lambda>r fill p. p\<lparr>content := map (redact_item r) (content p) @ [FilledRect r fill fill]\<rparr>),
      lib_search_for = (\<lambda>p needle. map span_bbox
          (filter (\<lambda>sp. py_in needle (span_text sp)) (concat (map block_spans (get_text_blocks p))))),
      lib_extract_text = page_text,
      lib_can_write = (\<lambda>p. True),
      lib_save_leaves_file = (\<lambda>p. False),
      lib_write_ok = (\<lambda>d. True)\<rparr>"

definition title_span :: span where
  "title_span =
     \<lparr>span_text = ''2024 KYC Report - Confidential'', span_font = ''Helvetica-Bold'',
      span_size = 14, span_bbox = (50, 700, 300, 715), span_color = Some (ColNum 0)\<rparr>"

definition body_span :: span where
  "body_span =
     \<lparr>span_text = ''Quarterly summary'', span_font = ''Helvetica'',
      span_size = 11, span_bbox = (50, 100, 200, 112), span_color = Some (ColNum 0)\<rparr>"

definition title_page :: page where
  "title_page = \<lparr>pwidth = 612, pheight = 792, content = [Blk (TextBlock [[title_span]])]\<rparr>"

definition plain_page :: page where
  "plain_page = \<lparr>pwidth = 612, pheight = 792, content = [Blk (TextBlock [[body_span]])]\<rparr>"

definition title_files :: fs where
  "title_files = (\<lambda>p. None)(''in.pdf'' \<mapsto> Pdf [title_page, plain_page])"

definition plain_files :: fs where
  "plain_files = (\<lambda>p. None)(''in.pdf'' \<mapsto> Pdf [plain_page, plain_page])"

text \<open>
  Three more libraries: one in which no font resolves, so every \<^verbatim>\<open>insert_text\<close>
  raises, one in which \<^verbatim>\<open>PdfWriter.write\<close> raises, and one in which no write completes
  and a save that raises has created the destination.
\<close>

definition env_no_font :: env where
  "env_no_font = env0\<lparr>lib_insert_ok := (\<lambda>it. False)\<rparr>"

definition env_write_fails :: env where
  "env_write_fails = env0\<lparr>lib_write_ok := (\<lambda>d. False)\<rparr>"

definition env_save_breaks :: env where
  "env_save_breaks = env0\<lparr>lib_can_write := (\<lambda>p. False), lib_save_leaves_file := (\<lambda>p. True)\<rparr>"

text \<open>
  A span of two blanks, and a span whose colour is a tuple.
\<close>

definition blank_span :: span where
  "blank_span =
     \<lparr>span_text = ''  '', span_font = ''Helvetica'', span_size = 11,
      span_bbox = (50, 120, 60, 132), span_color = Some (ColNum 0)\<rparr>"

definition tuple_span :: span where
  "tuple_span =
     \<lparr>span_text = ''Quarterly summary'', span_font = ''Helvetica'',
      span_size = 11, span_bbox = (50, 100, 200, 112), span_color = Some (ColSeq [1, 0, 0])\<rparr>"

section \<open>Notions used in the statements\<close>

text \<open>
  \<open>on_page0 f\<close> applies \<open>f\<close> to the first page of a document and keeps the others;
  \<open>all_spans\<close> lists the spans of the blocks in reading order; \<open>copied_item\<close> is the
  \<^verbatim>\<open>insert_text\<close> call the rebuilding strategies make for a span they copy.
\<close>

definition on_page0 :: "(page \<Rightarrow> page) \<Rightarrow> document \<Rightarrow> document" where
  "on_page0 f doc = (case doc of [] \<Rightarrow> [] | p # rest \<Rightarrow> f p # rest)"

definition all_spans :: "block list \<Rightarrow> span list" where
  "all_spans blocks = concat (map block_spans blocks)"

definition copied_item :: "string \<Rightarrow> string \<Rightarrow> span \<Rightarrow> item" where
  "copied_item old_text new_text sp =
     (case span_bbox sp of (x0, y0, x1, y1) \<Rightarrow>
        InsertedText (x0, y1 - 2) (copied_text old_text new_text sp) (span_size sp) (span_font sp)
          (if py_in new_text (copied_text old_text new_text sp) then [0, 102 / 255, 204 / 255]
           else other_span_color (span_color sp)))"

section \<open>Properties\<close>

subsection \<open>Colour conversion\<close>

lemma hexval_range: "hexval c = Some v \<Longrightarrow> 0 \<le> v \<and> v \<le> 15"
  by (auto simp: hexval_def Let_def split: if_splits)

lemma hexval_not_special:
  "hexval c = Some v \<Longrightarrow>
   \<not> py_int_space c \<and> c \<noteq> CHR ''+'' \<and> c \<noteq> CHR ''-'' \<and> c \<noteq> CHR ''_'' \<and> c \<noteq> CHR ''x'' \<and>
   c \<noteq> CHR ''X'' \<and> c \<noteq> CHR ''#''"
  by (auto simp: hexval_def py_int_space_def Let_def split: if_splits)

lemma py_int16_pair:
  assumes "hexval a = Some u" "hexval b = Some v"
  shows "py_int16 [a, b] = Inr (16 * u + v)"
  using assms hexval_not_special[OF assms(1)] hexval_not_special[OF assms(2)]
  by (simp add: py_int16_def py_int_strip_def hex_signed_def hex_unsigned_def)

lemma unit_interval: "0 \<le> u \<Longrightarrow> u \<le> 15 \<Longrightarrow> 0 \<le> v \<Longrightarrow> v \<le> 15 \<Longrightarrow>
   0 \<le> (of_int (16 * u + v) :: rat) / 255 \<and> (of_int (16 * u + v) :: rat) / 255 \<le> 1"
proof -
  assume a: "0 \<le> u" "u \<le> 15" "0 \<le> v" "v \<le> 15"
  then have "0 \<le> 16 * u + v" "16 * u + v \<le> 255" by auto
  then have "(0::rat) \<le> of_int (16 * u + v)" "(of_int (16 * u + v) :: rat) \<le> 255"
    by (simp_all only: of_int_0_le_iff of_int_le_numeral_iff)
  then show ?thesis by simp
qed

text \<open>
  C10. For every string of six hexadecimal digits, with or without a leading \<open>#\<close>,
  \<open>hex_to_rgb\<close> returns three components, each between 0 and 1; in particular
  \<^verbatim>\<open>"#0066cc"\<close> gives \<open>(0, 102/255, 204/255)\<close>.
\<close>

theorem hex_to_rgb_six_digits:
  assumes "length ds = 6" and "list_all (\<lambda>c. hexval c \<noteq> None) ds"
  shows "(\<exists>r g b. hex_to_rgb ds = Inr [r, g, b] \<and> hex_to_rgb (CHR ''#'' # ds) = Inr [r, g, b]
            \<and> 0 \<le> r \<and> r \<le> 1 \<and> 0 \<le> g \<and> g \<le> 1 \<and> 0 \<le> b \<and> b \<le> 1)
       \<and> hex_to_rgb ''#0066cc'' = Inr [0, 102 / 255, 204 / 255]"
proof -
  from assms(1) obtain a b c d e f where ds: "ds = [a, b, c, d, e, f]"
    by (auto simp: eval_nat_numeral length_Suc_conv)
  from assms(2) ds obtain va vb vc vd ve vf where
    v: "hexval a = Some va" "hexval b = Some vb" "hexval c = Some vc"
       "hexval d = Some vd" "hexval e = Some ve" "hexval f = Some vf"
    by auto
  have na: "a \<noteq> CHR ''#''" using hexval_not_special[OF v(1)] by simp
  have h: "hex_to_rgb ds = Inr [of_int (16 * va + vb) / 255, of_int (16 * vc + vd) / 255,
                                of_int (16 * ve + vf) / 255]"
    using na by (simp add: hex_to_rgb_def ds bind_err_def py_int16_pair[OF v(1,2)]
        py_int16_pair[OF v(3,4)] py_int16_pair[OF v(5,6)])
  have h': "hex_to_rgb (CHR ''#'' # ds) = hex_to_rgb ds"
    by (simp add: hex_to_rgb_def)
  have c: "hex_to_rgb ''#0066cc'' = Inr [0, 102 / 255, 204 / 255]"
    by (simp add: hex_to_rgb_def bind_err_def py_int16_def py_int_strip_def hex_signed_def
        hex_unsigned_def hexval_def py_int_space_def)
  define r g b :: rat where "r = of_int (16 * va + vb) / 255"
    and "g = of_int (16 * vc + vd) / 255" and "b = of_int (16 * ve + vf) / 255"
  have rr: "0 \<le> r \<and> r \<le> 1" unfolding r_def
    using hexval_range[OF v(1)] hexval_range[OF v(2)] by (intro unit_interval) auto
  have gg: "0 \<le> g \<and> g \<le> 1" unfolding g_def
    using hexval_range[OF v(3)] hexval_range[OF v(4)] by (intro unit_interval) auto
  have bb: "0 \<le> b \<and> b \<le> 1" unfolding b_def
    using hexval_range[OF v(5)] hexval_range[OF v(6)] by (intro unit_interval) auto
  have "hex_to_rgb ds = Inr [r, g, b]" "hex_to_rgb (CHR ''#'' # ds) = Inr [r, g, b]"
    using h h' by (simp_all only: r_def g_def b_def)
  with rr gg bb c show ?thesis by blast
qed

theorem hex_to_rgb_six_digits_witness:
  "length ''0066cc'' = 6 \<and> list_all (\<lambda>c. hexval c \<noteq> None) ''0066cc'' \<and>
   (\<exists>r g b. hex_to_rgb ''0066cc'' = Inr [r, g, b] \<and> hex_to_rgb ''#0066cc'' = Inr [r, g, b]
      \<and> 0 \<le> r \<and> r \<le> 1 \<and> 0 \<le> g \<and> g \<le> 1 \<and> 0 \<le> b \<and> b \<le> 1)"
proof -
  have a: "length ''0066cc'' = 6" by simp
  have b: "list_all (\<lambda>c. hexval c \<noteq> None) ''0066cc''" by (simp add: hexval_def)
  from hex_to_rgb_six_digits[OF a b] a b show ?thesis by blast
qed

subsection \<open>The pipeline follows the order\<close>

lemma run_strategy_simps:
  "run_strategy E inp outp ''clean'' = (\<lambda>files. replace_text_clean E files inp outp ''KYC Report'' ''PD Report'')"
  "run_strategy E inp outp ''minimal'' = (\<lambda>files. replace_text_minimal E files inp outp ''KYC Report'' ''PD Report'')"
  "run_strategy E inp outp ''direct'' = (\<lambda>files. replace_text_direct E files inp outp ''KYC Report'' ''PD Report'')"
  "run_strategy E inp outp ''overlay'' = (\<lambda>files. replace_text_overlay E files inp outp ''KYC Report'' ''PD Report'')"
  "run_strategy E inp outp ''precise'' = (\<lambda>files. replace_text_precise E files inp outp ''KYC Report'' ''PD Report'')"
  "run_strategy E inp outp ''standard'' = (\<lambda>files. replace_text_in_pdf E files inp outp ''KYC Report'' ''PD Report'')"
  "run_strategy E inp outp ''simple'' = (\<lambda>files. process_pdf_simple E files inp outp)"
  by (simp_all add: run_strategy_def fun_eq_iff)

lemma from_simple_run: "process_pdf_from_simple E inp outp ''simple'' w = run_order E inp outp [''simple''] w"
  by (simp add: process_pdf_from_simple_def run_strategy_simps split: prod.splits bool.splits)

lemma from_standard_run:
  "process_pdf_from_standard E inp outp ''standard'' w = run_order E inp outp [''standard'', ''simple''] w"
  by (simp add: process_pdf_from_standard_def from_simple_run run_strategy_simps del: run_order.simps
         add: run_order.simps(2)[of _ _ _ "''standard''"] split: prod.splits bool.splits)

lemma from_precise_run:
  "process_pdf_from_precise E inp outp ''precise'' w = run_order E inp outp [''precise'', ''standard'', ''simple''] w"
  by (simp add: process_pdf_from_precise_def from_standard_run run_strategy_simps del: run_order.simps
         add: run_order.simps(2)[of _ _ _ "''precise''"] split: prod.splits bool.splits)

lemma from_overlay_run:
  "process_pdf_from_overlay E inp outp ''overlay'' w = run_order E inp outp [''overlay'', ''precise'', ''standard'', ''simple''] w"
  by (simp add: process_pdf_from_overlay_def from_precise_run run_strategy_simps del: run_order.simps
         add: run_order.simps(2)[of _ _ _ "''overlay''"] split: prod.splits bool.splits)

lemma from_direct_run:
  "process_pdf_from_direct E inp outp ''direct'' w = run_order E inp outp [''direct'', ''overlay'', ''precise'', ''standard'', ''simple''] w"
  by (simp add: process_pdf_from_direct_def from_overlay_run run_strategy_simps del: run_order.simps
         add: run_order.simps(2)[of _ _ _ "''direct''"] split: prod.splits bool.splits)

lemma from_minimal_run:
  "process_pdf_from_minimal E inp outp ''minimal'' w = run_order E inp outp [''minimal'', ''direct'', ''overlay'', ''precise'', ''standard'', ''simple''] w"
  by (simp add: process_pdf_from_minimal_def from_direct_run run_strategy_simps del: run_order.simps
         add: run_order.simps(2)[of _ _ _ "''minimal''"] split: prod.splits bool.splits)

lemma from_clean_run:
  "process_pdf E inp outp ''clean'' w = run_order E inp outp default_order w"
  by (simp add: process_pdf_def from_minimal_run run_strategy_simps default_order_def del: run_order.simps
         add: run_order.simps(2)[of _ _ _ "''clean''"] split: prod.splits bool.splits)

text \<open>A method name other than the one of a block passes the block untouched.\<close>

lemma skip_blocks:
  "method \<noteq> ''clean'' \<Longrightarrow> process_pdf E inp outp method w = process_pdf_from_minimal E inp outp method w"
  "method \<noteq> ''minimal'' \<Longrightarrow> process_pdf_from_minimal E inp outp method w = process_pdf_from_direct E inp outp method w"
  "method \<noteq> ''direct'' \<Longrightarrow> process_pdf_from_direct E inp outp method w = process_pdf_from_overlay E inp outp method w"
  "method \<noteq> ''overlay'' \<Longrightarrow> process_pdf_from_overlay E inp outp method w = process_pdf_from_precise E inp outp method w"
  "method \<noteq> ''precise'' \<Longrightarrow> process_pdf_from_precise E inp outp method w = process_pdf_from_standard E inp outp method w"
  "method \<noteq> ''standard'' \<Longrightarrow> process_pdf_from_standard E inp outp method w = process_pdf_from_simple E inp outp method w"
  "method \<noteq> ''simple'' \<Longrightarrow> process_pdf_from_simple E inp outp method w = (False, w)"
  by (simp_all add: process_pdf_def process_pdf_from_minimal_def process_pdf_from_direct_def
        process_pdf_from_overlay_def process_pdf_from_precise_def process_pdf_from_standard_def
        process_pdf_from_simple_def)

lemma process_pdf_run_order:
  "method \<in> set default_order \<Longrightarrow>
   process_pdf E inp outp method w = run_order E inp outp (dropWhile (\<lambda>s. s \<noteq> method) default_order) w"
  unfolding default_order_def
  apply (simp del: run_order.simps)
  apply (elim disjE)
  apply (simp_all del: run_order.simps add: skip_blocks from_clean_run[unfolded default_order_def] from_minimal_run from_direct_run from_overlay_run from_precise_run from_standard_run from_simple_run)
  done

lemma unknown_method_result: "method \<notin> set default_order \<Longrightarrow> process_pdf E inp outp method w = (False, w)"
  by (simp add: default_order_def skip_blocks)

text \<open>
  C9. A method name that is none of the seven makes \<open>process_pdf\<close> return
  \<^verbatim>\<open>False\<close> with the file system untouched and no strategy called.
\<close>

theorem unknown_method: "method \<notin> set default_order \<Longrightarrow> process_pdf E inp outp method w = (False, w)"
  by (simp add: default_order_def skip_blocks)

theorem unknown_method_witness:
  "''fast'' \<notin> set default_order \<and>
   process_pdf env0 ''in.pdf'' ''out.pdf'' ''fast'' (title_files, []) = (False, (title_files, []))"
  using unknown_method[of "''fast''" env0 "''in.pdf''" "''out.pdf''" "(title_files, [])"]
  by (simp add: default_order_def)

subsection \<open>What a strategy leaves behind\<close>

lemma doc_save_cases:
  "doc_save E inp doc outp files =
     (if lib_can_write E outp then (Inr (), files(outp \<mapsto> Pdf doc))
      else if outp \<noteq> inp \<and> lib_save_leaves_file E outp then (Inl OSError, files(outp \<mapsto> NotPdf))
      else (Inl PermissionError, files))"
  by (simp add: doc_save_def)

lemma fitz_open_Inr: "fitz_open files p = Inr d \<longleftrightarrow> files p = Some (Pdf d)"
  by (auto simp: fitz_open_def split: option.splits stored.splits)

lemma load_page0_Inr: "load_page0 doc = Inr p \<longleftrightarrow> (\<exists>rest. doc = p # rest)"
  by (auto simp: load_page0_def split: list.splits)

lemma clean_in_place:
  "replace_text_clean_body E files inp outp old_text new_text =
   in_place E files inp outp (clean_edit E old_text new_text)"
  unfolding replace_text_clean_body_def in_place_def clean_edit_def
  by (simp add: step_def bind_err_def Let_def split: sum.splits option.splits prod.splits)

lemma minimal_in_place:
  "replace_text_minimal_body E files inp outp old_text new_text =
   in_place E files inp outp (minimal_edit E old_text new_text)"
  unfolding replace_text_minimal_body_def in_place_def minimal_edit_def
  by (simp add: step_def bind_err_def Let_def split: sum.splits option.splits prod.splits)

lemma overlay_in_place:
  "replace_text_overlay_body E files inp outp old_text new_text =
   in_place E files inp outp (overlay_edit E old_text new_text)"
  unfolding replace_text_overlay_body_def in_place_def overlay_edit_def
  by (simp add: step_def bind_err_def Let_def split: sum.splits option.splits prod.splits)

lemma standard_in_place:
  "replace_text_in_pdf_body E files inp outp old_text new_text =
   in_place E files inp outp (standard_edit E old_text new_text)"
  unfolding replace_text_in_pdf_body_def in_place_def standard_edit_def
  by (simp add: step_def bind_err_def Let_def split: sum.splits option.splits prod.splits)

text \<open>What a strategy of the in-place frame returns, by the source file and the edit.\<close>

lemma in_place_unreadable:
  "\<forall>p rest. files inp \<noteq> Some (Pdf (p # rest)) \<Longrightarrow>
   except_return_False (in_place E files inp outp edit) = (False, files)"
  by (auto simp: in_place_def step_def fitz_open_def load_page0_def except_return_False_def
      split: option.splits stored.splits list.splits)

lemma in_place_no_edit:
  "files inp = Some (Pdf (p # rest)) \<Longrightarrow> \<forall>q. edit p \<noteq> Inr (Some q) \<Longrightarrow>
   except_return_False (in_place E files inp outp edit) = (False, files)"
  by (auto simp: in_place_def step_def fitz_open_def load_page0_def except_return_False_def
      split: option.splits sum.splits)

lemma in_place_edit:
  "files inp = Some (Pdf (p # rest)) \<Longrightarrow> edit p = Inr (Some q) \<Longrightarrow>
   except_return_False (in_place E files inp outp edit) =
     (if lib_can_write E outp then (True, files(outp \<mapsto> Pdf (q # rest)))
      else if outp \<noteq> inp \<and> lib_save_leaves_file E outp then (False, files(outp \<mapsto> NotPdf))
      else (False, files))"
  by (simp add: in_place_def step_def fitz_open_def load_page0_def except_return_False_def
      doc_save_def)

text \<open>
  A strategy reads the source file only. Its truth value, and what it puts at the
  destination (\<open>None\<close>: nothing), are fixed by the content \<open>src\<close> of the source.
\<close>

lemma in_place_effect:
  "\<exists>b u. (\<forall>files. files inp = src \<longrightarrow>
             except_return_False (in_place E files inp outp edit) =
               (b, case u of None \<Rightarrow> files | Some st \<Rightarrow> files(outp \<mapsto> st)))
        \<and> (b \<longrightarrow> (\<exists>d. u = Some (Pdf d)))
        \<and> (\<not> b \<longrightarrow> u = None \<or> (u = Some NotPdf \<and> outp \<noteq> inp))"
proof -
  have none: ?thesis
    if "\<And>files. files inp = src \<Longrightarrow> except_return_False (in_place E files inp outp edit) = (False, files)"
    using that by (intro exI[of _ False] exI[of _ None]) simp
  show ?thesis
  proof (cases "\<exists>p rest. src = Some (Pdf (p # rest))")
    case False
    then show ?thesis by (intro none in_place_unreadable) simp
  next
    case True
    then obtain p rest where src: "src = Some (Pdf (p # rest))" by blast
    show ?thesis
    proof (cases "\<exists>q. edit p = Inr (Some q)")
      case False
      then show ?thesis using src by (intro none in_place_no_edit[where p=p and rest=rest]) simp_all
    next
      case True
      then obtain q where q: "edit p = Inr (Some q)" ..
      note e = in_place_edit[where edit=edit and p=p and q=q and inp=inp and rest=rest and E=E and outp=outp, OF _ q]
      consider "lib_can_write E outp"
        | "\<not> lib_can_write E outp" "outp \<noteq> inp \<and> lib_save_leaves_file E outp"
        | "\<not> lib_can_write E outp" "\<not> (outp \<noteq> inp \<and> lib_save_leaves_file E outp)" by blast
      then show ?thesis
      proof cases
        case 1
        then show ?thesis using e src
          by (intro exI[of _ True] exI[of _ "Some (Pdf (q # rest))"]) simp
      next
        case 2
        then show ?thesis using e src
          by (intro exI[of _ False] exI[of _ "Some NotPdf"]) simp
      next
        case 3
        then show ?thesis using e src
          by (intro exI[of _ False] exI[of _ None]) auto
      qed
    qed
  qed
qed

lemma rebuild_returns:
  "replace_text_direct E files inp outp old_text new_text = (False, files)"
  "replace_text_precise E files inp outp old_text new_text = (False, files)"
  by (auto simp: replace_text_direct_def replace_text_direct_body_def replace_text_precise_def
      replace_text_precise_body_def except_return_False_def step_def insert_page_def Let_def
      split: sum.splits option.splits)

lemma pdf_reader_Inr: "pdf_reader files p = Inr d \<longleftrightarrow> files p = Some (Pdf d)"
  by (auto simp: pdf_reader_def split: option.splits stored.splits)

lemma simple_unreadable:
  "\<forall>pages. files inp \<noteq> Some (Pdf pages) \<Longrightarrow> process_pdf_simple E files inp outp = (False, files)"
  by (auto simp: process_pdf_simple_def process_pdf_simple_body_def pdf_reader_def
      split: option.splits stored.splits)

lemma simple_readable:
  "files inp = Some (Pdf pages) \<Longrightarrow>
   process_pdf_simple E files inp outp =
     (if \<not> lib_can_write E outp then (False, files)
      else if lib_write_ok E (simple_pages E 0 pages)
        then (True, files(outp \<mapsto> Pdf (simple_pages E 0 pages)))
      else (False, files(outp \<mapsto> NotPdf)))"
  by (simp add: process_pdf_simple_def process_pdf_simple_body_def pdf_reader_def)

lemma simple_effect:
  "\<exists>b u. (\<forall>files. files inp = src \<longrightarrow>
             process_pdf_simple E files inp outp =
               (b, case u of None \<Rightarrow> files | Some st \<Rightarrow> files(outp \<mapsto> st)))
        \<and> (b \<longrightarrow> (\<exists>d. u = Some (Pdf d)))
        \<and> (\<not> b \<longrightarrow> u = None \<or> u = Some NotPdf)"
proof (cases "\<exists>pages. src = Some (Pdf pages)")
  case False
  then have "\<And>files. files inp = src \<Longrightarrow> process_pdf_simple E files inp outp = (False, files)"
    by (intro simple_unreadable) simp
  then show ?thesis by (intro exI[of _ False] exI[of _ None]) simp
next
  case True
  then obtain pages where src: "src = Some (Pdf pages)" ..
  note e = simple_readable[where inp=inp and pages=pages and E=E and outp=outp]
  consider "\<not> lib_can_write E outp"
    | "lib_can_write E outp" "lib_write_ok E (simple_pages E 0 pages)"
    | "lib_can_write E outp" "\<not> lib_write_ok E (simple_pages E 0 pages)" by blast
  then show ?thesis
  proof cases
    case 1
    then show ?thesis using e src by (intro exI[of _ False] exI[of _ None]) simp
  next
    case 2
    then show ?thesis using e src
      by (intro exI[of _ True] exI[of _ "Some (Pdf (simple_pages E 0 pages))"]) simp
  next
    case 3
    then show ?thesis using e src by (intro exI[of _ False] exI[of _ "Some NotPdf"]) simp
  qed
qed

lemma strategy_effect:
  "\<exists>b u. (\<forall>files. files inp = src \<longrightarrow>
             run_strategy E inp outp s files =
               (b, case u of None \<Rightarrow> files | Some st \<Rightarrow> files(outp \<mapsto> st)))
        \<and> (b \<longrightarrow> (\<exists>d. u = Some (Pdf d)))
        \<and> (\<not> b \<longrightarrow> u = None \<or> (u = Some NotPdf \<and> (s = ''simple'' \<or> outp \<noteq> inp)))"
proof -
  have none: ?thesis if "\<And>files. run_strategy E inp outp s files = (False, files)"
    using that by (intro exI[of _ False] exI[of _ None]) simp
  have ip: ?thesis
    if "run_strategy E inp outp s = (\<lambda>files. except_return_False (in_place E files inp outp edit))"
    for edit
    using in_place_effect[where inp=inp and src=src and E=E and outp=outp and edit=edit] unfolding that by blast
  consider "s = ''clean''" | "s = ''minimal''" | "s = ''overlay''" | "s = ''standard''"
    | "s = ''simple''" | "s = ''direct''" | "s = ''precise''"
    | "s \<notin> set default_order" by (auto simp: default_order_def)
  then show ?thesis
  proof cases
    case 1
    show ?thesis by (rule ip) (simp add: 1 run_strategy_simps replace_text_clean_def clean_in_place)
  next
    case 2
    show ?thesis by (rule ip) (simp add: 2 run_strategy_simps replace_text_minimal_def minimal_in_place)
  next
    case 3
    show ?thesis by (rule ip) (simp add: 3 run_strategy_simps replace_text_overlay_def overlay_in_place)
  next
    case 4
    show ?thesis by (rule ip) (simp add: 4 run_strategy_simps replace_text_in_pdf_def standard_in_place)
  next
    case 5
    from simple_effect[where inp=inp and src=src and E=E and outp=outp] show ?thesis
      unfolding 5 by (simp add: run_strategy_simps)
  next
    case 6
    show ?thesis by (rule none) (simp add: 6 run_strategy_simps rebuild_returns)
  next
    case 7
    show ?thesis by (rule none) (simp add: 7 run_strategy_simps rebuild_returns)
  next
    case 8
    then show ?thesis by (intro none) (simp add: run_strategy_def default_order_def)
  qed
qed

lemma run_order_trace:
  assumes "''simple'' \<notin> set (butlast ss)" and "cur inp = files inp"
  shows "snd (snd (run_order E inp outp ss (cur, calls))) =
           calls @ attempted (\<lambda>s. fst (run_strategy E inp outp s files)) ss
       \<and> fst (run_order E inp outp ss (cur, calls)) =
           list_ex (\<lambda>s. fst (run_strategy E inp outp s files)) ss"
  using assms
proof (induction ss arbitrary: cur calls)
  case Nil
  show ?case by simp
next
  case (Cons s ss)
  from strategy_effect[where inp=inp and src="files inp" and E=E and outp=outp and s=s]
  obtain b u where
    e: "\<And>f. f inp = files inp \<Longrightarrow>
          run_strategy E inp outp s f = (b, case u of None \<Rightarrow> f | Some st \<Rightarrow> f(outp \<mapsto> st))"
    and f: "\<not> b \<Longrightarrow> u = None \<or> (u = Some NotPdf \<and> (s = ''simple'' \<or> outp \<noteq> inp))"
    by blast
  have r0: "fst (run_strategy E inp outp s files) = b" using e[of files] by simp
  have r1: "run_strategy E inp outp s cur = (b, case u of None \<Rightarrow> cur | Some st \<Rightarrow> cur(outp \<mapsto> st))"
    using e[of cur] Cons.prems(2) by simp
  show ?case
  proof (cases b)
    case True
    with r0 r1 show ?thesis by (simp add: attempt_def)
  next
    case False
    show ?thesis
    proof (cases "ss = []")
      case True
      with r0 r1 False show ?thesis by (simp add: attempt_def)
    next
      case nonempty: False
      with Cons.prems have ns: "s \<noteq> ''simple''" and rest: "''simple'' \<notin> set (butlast ss)"
        by auto
      let ?cur' = "case u of None \<Rightarrow> cur | Some st \<Rightarrow> cur(outp \<mapsto> st)"
      from f[OF False] ns Cons.prems(2) have c: "?cur' inp = files inp" by auto
      from r0 r1 False Cons.IH[of ?cur' "calls @ [s]", OF rest c] show ?thesis
        by (simp add: attempt_def)
    qed
  qed
qed

lemma suffix_no_early_simple:
  "method \<in> set default_order \<Longrightarrow> ''simple'' \<notin> set (butlast (dropWhile (\<lambda>s. s \<noteq> method) default_order))"
  by (auto simp: default_order_def)

lemma suffix_in_order:
  "s \<in> set (dropWhile (\<lambda>s. s \<noteq> method) default_order) \<Longrightarrow> s \<in> set default_order"
  by (meson set_dropWhileD)

lemma run_order_files_aux:
  assumes "''simple'' \<notin> set (butlast ss)"
    and T: "T = files(outp \<mapsto> NotPdf)"
    and "cur = files \<or>
         (outp \<noteq> inp \<and> cur = T \<and>
          (\<exists>s0. s0 \<in> A \<and> s0 \<in> set calls \<and> run_strategy E inp outp s0 files = (False, T)))"
    and "set ss \<subseteq> A"
    and "run_order E inp outp ss (cur, calls) = (ok, (files', calls'))"
  shows "(ok \<longrightarrow> (\<exists>s d. s \<in> set ss \<and> calls' \<noteq> [] \<and> last calls' = s \<and>
                    files' = files(outp \<mapsto> Pdf d) \<and>
                    run_strategy E inp outp s files = (True, files(outp \<mapsto> Pdf d))))
       \<and> (\<not> ok \<longrightarrow> files' = files \<or>
             (files' = T \<and>
              (\<exists>s0. s0 \<in> A \<and> s0 \<in> set calls' \<and> run_strategy E inp outp s0 files = (False, T))))"
  using assms(1,3,4,5)
proof (induction ss arbitrary: cur calls)
  case Nil
  then have "\<not> ok" "files' = cur" "calls' = calls" by simp_all
  with Nil.prems(2) show ?case by blast
next
  case (Cons s ss)
  have ci: "cur inp = files inp"
  proof -
    from Cons.prems(2) consider "cur = files" | "outp \<noteq> inp" "cur = T" by blast
    then show ?thesis by cases (simp_all add: T)
  qed
  have up: "cur(outp \<mapsto> st) = files(outp \<mapsto> st)" for st
  proof -
    from Cons.prems(2) consider "cur = files" | "outp \<noteq> inp" "cur = T" by blast
    then show ?thesis by cases (simp_all add: T)
  qed
  from strategy_effect[where inp=inp and src="files inp" and E=E and outp=outp and s=s]
  obtain b u where
    e: "\<And>f. f inp = files inp \<Longrightarrow>
          run_strategy E inp outp s f = (b, case u of None \<Rightarrow> f | Some st \<Rightarrow> f(outp \<mapsto> st))"
    and t: "b \<Longrightarrow> \<exists>d. u = Some (Pdf d)"
    and f: "\<not> b \<Longrightarrow> u = None \<or> (u = Some NotPdf \<and> (s = ''simple'' \<or> outp \<noteq> inp))"
    by blast
  have r0: "run_strategy E inp outp s files = (b, case u of None \<Rightarrow> files | Some st \<Rightarrow> files(outp \<mapsto> st))"
    using e[of files] by simp
  have r1: "run_strategy E inp outp s cur = (b, case u of None \<Rightarrow> cur | Some st \<Rightarrow> cur(outp \<mapsto> st))"
    using e[of cur] ci by simp
  from Cons.prems(3) have sA: "s \<in> A" and ssA: "set ss \<subseteq> A" by auto
  show ?case
  proof (cases b)
    case True
    from t[OF True] obtain d where u: "u = Some (Pdf d)" ..
    from True r1 u Cons.prems(4) have ok: "ok" and fc: "files' = cur(outp \<mapsto> Pdf d)"
      and cc: "calls' = calls @ [s]"
      by (simp_all add: attempt_def)
    from r0 True u have rs: "run_strategy E inp outp s files = (True, files(outp \<mapsto> Pdf d))"
      by simp
    from fc up[of "Pdf d"] have ff: "files' = files(outp \<mapsto> Pdf d)" by simp
    have "s \<in> set (s # ss) \<and> calls' \<noteq> [] \<and> last calls' = s \<and>
          files' = files(outp \<mapsto> Pdf d) \<and>
          run_strategy E inp outp s files = (True, files(outp \<mapsto> Pdf d))"
      using cc ff rs by simp
    with ok show ?thesis by blast
  next
    case False
    define cur' where "cur' = (case u of None \<Rightarrow> cur | Some st \<Rightarrow> cur(outp \<mapsto> st))"
    from False r1 Cons.prems(4)
    have run: "run_order E inp outp ss (cur', calls @ [s]) = (ok, (files', calls'))"
      by (simp add: attempt_def cur'_def)
    have next_world: "(u = None \<and> cur' = cur) \<or>
        (cur' = T \<and> (s = ''simple'' \<or> outp \<noteq> inp) \<and>
         (cur = files \<longrightarrow> run_strategy E inp outp s files = (False, T)))"
    proof -
      from f[OF False] show ?thesis
      proof
        assume "u = None"
        then show ?thesis by (simp add: cur'_def)
      next
        assume a: "u = Some NotPdf \<and> (s = ''simple'' \<or> outp \<noteq> inp)"
        then have "cur' = T" using up[of NotPdf] by (simp add: cur'_def T)
        moreover have "run_strategy E inp outp s files = (False, T)"
          using r0 False a by (simp add: T)
        ultimately show ?thesis using a by blast
      qed
    qed
    have inv: "cur' = files \<or>
         (outp \<noteq> inp \<and> cur' = T \<and>
          (\<exists>s0. s0 \<in> A \<and> s0 \<in> set (calls @ [s]) \<and>
                run_strategy E inp outp s0 files = (False, T)))"
      if ns: "s \<noteq> ''simple''"
    proof -
      have mono: "\<exists>s0. s0 \<in> A \<and> s0 \<in> set (calls @ [s]) \<and> run_strategy E inp outp s0 files = (False, T)"
        if "\<exists>s0. s0 \<in> A \<and> s0 \<in> set calls \<and> run_strategy E inp outp s0 files = (False, T)"
        using that by auto
      have here: "\<exists>s0. s0 \<in> A \<and> s0 \<in> set (calls @ [s]) \<and> run_strategy E inp outp s0 files = (False, T)"
        if "run_strategy E inp outp s files = (False, T)"
        using that sA by auto
      from next_world Cons.prems(2) ns mono here show ?thesis by blast
    qed
    show ?thesis
    proof (cases "ss = []")
      case True
      with run have res: "\<not> ok" "files' = cur'" "calls' = calls @ [s]" by simp_all
      have mono: "\<exists>s0. s0 \<in> A \<and> s0 \<in> set calls' \<and> run_strategy E inp outp s0 files = (False, T)"
        if "\<exists>s0. s0 \<in> A \<and> s0 \<in> set calls \<and> run_strategy E inp outp s0 files = (False, T)"
        using that res(3) by auto
      have here: "\<exists>s0. s0 \<in> A \<and> s0 \<in> set calls' \<and> run_strategy E inp outp s0 files = (False, T)"
        if "run_strategy E inp outp s files = (False, T)"
        using that sA res(3) by auto
      from next_world Cons.prems(2) mono here res(1,2) show ?thesis by blast
    next
      case nonempty: False
      with Cons.prems(1) have ns: "s \<noteq> ''simple''" and rest: "''simple'' \<notin> set (butlast ss)"
        by auto
      note ih = Cons.IH[of cur' "calls @ [s]", OF rest inv[OF ns] ssA run]
      show ?thesis
      proof (intro conjI impI)
        assume ok
        with ih obtain s' d where "s' \<in> set ss" "calls' \<noteq> []" "last calls' = s'"
          "files' = files(outp \<mapsto> Pdf d)"
          "run_strategy E inp outp s' files = (True, files(outp \<mapsto> Pdf d))" by blast
        then show "\<exists>sa d. sa \<in> set (s # ss) \<and> calls' \<noteq> [] \<and> last calls' = sa \<and>
                    files' = files(outp \<mapsto> Pdf d) \<and>
                    run_strategy E inp outp sa files = (True, files(outp \<mapsto> Pdf d))"
          by (intro exI[of _ s'] exI[of _ d]) simp
      next
        assume "\<not> ok"
        with ih show "files' = files \<or>
             (files' = T \<and>
              (\<exists>s0. s0 \<in> A \<and> s0 \<in> set calls' \<and> run_strategy E inp outp s0 files = (False, T)))"
          by blast
      qed
    qed
  qed
qed

lemma run_order_files:
  assumes "''simple'' \<notin> set (butlast ss)"
    and "set ss \<subseteq> A"
    and "run_order E inp outp ss (files, calls) = (ok, (files', calls'))"
  shows "(ok \<longrightarrow> (\<exists>s d. s \<in> set ss \<and> calls' \<noteq> [] \<and> last calls' = s \<and>
                    files' = files(outp \<mapsto> Pdf d) \<and>
                    run_strategy E inp outp s files = (True, files(outp \<mapsto> Pdf d))))
       \<and> (\<not> ok \<longrightarrow> files' = files \<or>
             (files' = files(outp \<mapsto> NotPdf) \<and>
              (\<exists>s0. s0 \<in> A \<and> s0 \<in> set calls' \<and>
                    run_strategy E inp outp s0 files = (False, files(outp \<mapsto> NotPdf)))))"
  by (rule run_order_files_aux[OF assms(1) refl _ assms(2,3)]) simp

text \<open>
  C1. With the default method \<^verbatim>\<open>clean\<close> the pipeline is the runner on the fixed order
  clean, minimal, direct, overlay, precise, standard, simple: the strategies called are
  that order up to and including the first one that succeeds on the source, nothing
  after it, and the result is whether any of them succeeds. When clean and minimal fail,
  the third call is direct.
\<close>

theorem default_order_followed:
  "process_pdf E inp outp ''clean'' (files, calls) = run_order E inp outp default_order (files, calls)
 \<and> snd (snd (process_pdf E inp outp ''clean'' (files, calls))) =
     calls @ attempted (\<lambda>s. fst (run_strategy E inp outp s files)) default_order
 \<and> fst (process_pdf E inp outp ''clean'' (files, calls)) =
     list_ex (\<lambda>s. fst (run_strategy E inp outp s files)) default_order
 \<and> (\<not> fst (run_strategy E inp outp ''clean'' files) \<and> \<not> fst (run_strategy E inp outp ''minimal'' files)
     \<longrightarrow> take 3 (attempted (\<lambda>s. fst (run_strategy E inp outp s files)) default_order)
          = [''clean'', ''minimal'', ''direct''])"
proof -
  have ns: "''simple'' \<notin> set (butlast default_order)" by (simp add: default_order_def)
  have "take 3 (attempted (\<lambda>s. fst (run_strategy E inp outp s files)) default_order)
          = [''clean'', ''minimal'', ''direct'']"
    if "\<not> fst (run_strategy E inp outp ''clean'' files)" "\<not> fst (run_strategy E inp outp ''minimal'' files)"
    using that by (simp add: default_order_def)
  with run_order_trace[where ss=default_order and cur=files and files=files and inp=inp and E=E
      and outp=outp and calls=calls, OF ns refl]
  show ?thesis
    by (simp add: from_clean_run)
qed

subsection \<open>The sample inputs, evaluated\<close>

lemmas strategy_defs =
  replace_text_clean_def replace_text_clean_body_def
  replace_text_minimal_def replace_text_minimal_body_def
  replace_text_overlay_def replace_text_overlay_body_def
  replace_text_direct_def replace_text_direct_body_def
  replace_text_precise_def replace_text_precise_body_def
  replace_text_in_pdf_def replace_text_in_pdf_body_def
  process_pdf_simple_def process_pdf_simple_body_def step_def except_return_False_def

lemmas library_defs =
  bind_err_def fitz_open_def pdf_reader_def load_page0_def get_text_blocks_def draw_rect_def
  insert_text_def redact_def doc_save_def new_page_def delete_page_def insert_page_def
  merge_page_def watermark_page_def page_text_def page_texts_def

lemmas sample_defs =
  env0_def title_span_def body_span_def title_page_def plain_page_def title_files_def
  plain_files_def

lemma accent: "hex_to_rgb ''#0066cc'' = Inr [0, 2 / 5, 4 / 5]"
  by (simp add: hex_to_rgb_def bind_err_def py_int16_def py_int_strip_def hex_signed_def
        hex_unsigned_def hexval_def py_int_space_def)

lemma plain_fails:
  "run_strategy env0 ''in.pdf'' ''out.pdf'' ''clean'' plain_files = (False, plain_files)"
  "run_strategy env0 ''in.pdf'' ''out.pdf'' ''minimal'' plain_files = (False, plain_files)"
  "run_strategy env0 ''in.pdf'' ''out.pdf'' ''direct'' plain_files = (False, plain_files)"
  "run_strategy env0 ''in.pdf'' ''out.pdf'' ''overlay'' plain_files = (False, plain_files)"
  "run_strategy env0 ''in.pdf'' ''out.pdf'' ''precise'' plain_files = (False, plain_files)"
  "run_strategy env0 ''in.pdf'' ''out.pdf'' ''standard'' plain_files = (False, plain_files)"
  by (simp_all add: run_strategy_simps strategy_defs library_defs sample_defs)

lemma plain_simple:
  "run_strategy env0 ''in.pdf'' ''out.pdf'' ''simple'' plain_files =
     (True, plain_files(''out.pdf'' \<mapsto> Pdf [plain_page, plain_page]))"
  by (simp add: run_strategy_simps strategy_defs library_defs sample_defs)

lemma title_clean:
  "run_strategy env0 ''in.pdf'' ''out.pdf'' ''clean'' title_files =
     (True, title_files(''out.pdf'' \<mapsto> Pdf
        [title_page\<lparr>content := content title_page @
            [FilledRect (47, 697, 303, 718) [1, 1, 1] [1, 1, 1],
             InsertedText (50, 710) ''PD Report'' 14 ''Helvetica-Bold'' [0, 2 / 5, 4 / 5]]\<rparr>,
         plain_page]))"
  by (simp add: run_strategy_simps strategy_defs library_defs sample_defs accent)

theorem default_order_followed_witness:
  "\<not> fst (run_strategy env0 ''in.pdf'' ''out.pdf'' ''clean'' plain_files) \<and>
   \<not> fst (run_strategy env0 ''in.pdf'' ''out.pdf'' ''minimal'' plain_files) \<and>
   take 3 (snd (snd (process_pdf env0 ''in.pdf'' ''out.pdf'' ''clean'' (plain_files, [])))) =
     [''clean'', ''minimal'', ''direct'']"
proof -
  note t = default_order_followed[of env0 "''in.pdf''" "''out.pdf''" plain_files "[]"]
  have a: "\<not> fst (run_strategy env0 ''in.pdf'' ''out.pdf'' ''clean'' plain_files)"
    and b: "\<not> fst (run_strategy env0 ''in.pdf'' ''out.pdf'' ''minimal'' plain_files)"
    by (simp_all add: plain_fails)
  from t have "snd (snd (process_pdf env0 ''in.pdf'' ''out.pdf'' ''clean'' (plain_files, []))) =
      [] @ attempted (\<lambda>s. fst (run_strategy env0 ''in.pdf'' ''out.pdf'' s plain_files)) default_order"
    by blast
  moreover from t a b
  have "take 3 (attempted (\<lambda>s. fst (run_strategy env0 ''in.pdf'' ''out.pdf'' s plain_files))
          default_order) = [''clean'', ''minimal'', ''direct'']"
    by blast
  ultimately show ?thesis using a b by simp
qed

text \<open>
  C3, as stated, fails: selecting \<^verbatim>\<open>standard\<close> on a document without the target text
  makes the standard strategy fail, and the pipeline goes on to \<^verbatim>\<open>simple\<close> and reports
  success.
\<close>

theorem single_method_counterexample:
  "\<not> fst (run_strategy env0 ''in.pdf'' ''out.pdf'' ''standard'' plain_files) \<and>
   process_pdf env0 ''in.pdf'' ''out.pdf'' ''standard'' (plain_files, []) =
     (True, (plain_files(''out.pdf'' \<mapsto> Pdf [plain_page, plain_page]), [''standard'', ''simple'']))"
  by (simp add: plain_fails plain_simple process_pdf_run_order default_order_def attempt_def)

text \<open>
  C3, amended. A method name among the seven selects where the pipeline enters the fixed
  order: the strategies called are the order from that name on, up to and including the
  first that succeeds, ending with \<^verbatim>\<open>simple\<close>; the result is failure only when every
  one of them, \<^verbatim>\<open>simple\<close> included, fails.
\<close>

theorem selected_method_starts_chain:
  assumes "method \<in> set default_order"
  shows "process_pdf E inp outp method (files, calls) =
           run_order E inp outp (dropWhile (\<lambda>s. s \<noteq> method) default_order) (files, calls)
       \<and> snd (snd (process_pdf E inp outp method (files, calls))) =
           calls @ attempted (\<lambda>s. fst (run_strategy E inp outp s files))
                     (dropWhile (\<lambda>s. s \<noteq> method) default_order)
       \<and> fst (process_pdf E inp outp method (files, calls)) =
           list_ex (\<lambda>s. fst (run_strategy E inp outp s files))
             (dropWhile (\<lambda>s. s \<noteq> method) default_order)"
  using run_order_trace[where cur=files and files=files and inp=inp and E=E and outp=outp
      and calls=calls, OF suffix_no_early_simple[OF assms] refl]
  by (simp add: process_pdf_run_order[OF assms])

theorem selected_method_starts_chain_witness:
  "''precise'' \<in> set default_order \<and>
   snd (snd (process_pdf env0 ''in.pdf'' ''out.pdf'' ''precise'' (plain_files, []))) =
     [''precise'', ''standard'', ''simple''] \<and>
   fst (process_pdf env0 ''in.pdf'' ''out.pdf'' ''precise'' (plain_files, []))"
proof -
  have m: "''precise'' \<in> set default_order" by (simp add: default_order_def)
  note t = selected_method_starts_chain[OF m, of env0 "''in.pdf''" "''out.pdf''" plain_files "[]"]
  have d: "dropWhile (\<lambda>s. s \<noteq> ''precise'') default_order = [''precise'', ''standard'', ''simple'']"
    by (simp add: default_order_def)
  from t have "snd (snd (process_pdf env0 ''in.pdf'' ''out.pdf'' ''precise'' (plain_files, []))) =
      [] @ attempted (\<lambda>s. fst (run_strategy env0 ''in.pdf'' ''out.pdf'' s plain_files))
             (dropWhile (\<lambda>s. s \<noteq> ''precise'') default_order)"
    by blast
  moreover from t have "fst (process_pdf env0 ''in.pdf'' ''out.pdf'' ''precise'' (plain_files, [])) =
      list_ex (\<lambda>s. fst (run_strategy env0 ''in.pdf'' ''out.pdf'' s plain_files))
             (dropWhile (\<lambda>s. s \<noteq> ''precise'') default_order)"
    by blast
  ultimately show ?thesis using m by (simp add: d plain_fails plain_simple)
qed

subsection \<open>Exceptions stay inside the pipeline\<close>

lemma raises_fails:
  "strategy_raises E inp outp name files \<Longrightarrow> \<not> fst (run_strategy E inp outp name files)"
  unfolding strategy_raises_def run_strategy_def replace_text_clean_def replace_text_minimal_def
    replace_text_direct_def replace_text_overlay_def replace_text_precise_def
    replace_text_in_pdf_def process_pdf_simple_def except_return_False_def
  by (auto split: if_splits sum.splits prod.splits simp: isl_def)

lemma suffix_from_method:
  "method \<in> set default_order \<Longrightarrow>
   dropWhile (\<lambda>s. s \<noteq> method) default_order =
     method # tl (dropWhile (\<lambda>s. s \<noteq> method) default_order)"
  by (auto simp: default_order_def)

text \<open>
  C8. When the body of a strategy of the order ends in a raise, whatever statement raised
  it, the strategy returns \<^verbatim>\<open>False\<close>, and \<^verbatim>\<open>process_pdf\<close> entered at that strategy
  goes on with the strategies after it in the order, from the file system the strategy
  left (no strategy comes after \<^verbatim>\<open>simple\<close>: there the result is \<^verbatim>\<open>False\<close>). The
  caller gets a truth value in every case: \<open>process_pdf\<close> returns a pair, never an
  error.
\<close>

theorem exceptions_absorbed:
  assumes "method \<in> set default_order" and "strategy_raises E inp outp method files"
  shows "\<not> fst (run_strategy E inp outp method files)
       \<and> process_pdf E inp outp method (files, calls) =
           run_order E inp outp (tl (dropWhile (\<lambda>s. s \<noteq> method) default_order))
             (snd (run_strategy E inp outp method files), calls @ [method])"
proof -
  have f: "\<not> fst (run_strategy E inp outp method files)"
    by (rule raises_fails[OF assms(2)])
  have "process_pdf E inp outp method (files, calls) =
        run_order E inp outp (method # tl (dropWhile (\<lambda>s. s \<noteq> method) default_order)) (files, calls)"
    using process_pdf_run_order[OF assms(1)] suffix_from_method[OF assms(1)] by simp
  also have "\<dots> = run_order E inp outp (tl (dropWhile (\<lambda>s. s \<noteq> method) default_order))
             (snd (run_strategy E inp outp method files), calls @ [method])"
    using f by (cases "run_strategy E inp outp method files") (simp add: attempt_def)
  finally show ?thesis using f by simp
qed

lemma no_font_clean_raises:
  "strategy_raises env_no_font ''in.pdf'' ''out.pdf'' ''clean'' title_files"
  by (simp add: strategy_raises_def strategy_defs library_defs sample_defs accent env_no_font_def)

lemma no_font_clean_result:
  "run_strategy env_no_font ''in.pdf'' ''out.pdf'' ''clean'' title_files = (False, title_files)"
  by (simp add: run_strategy_simps strategy_defs library_defs sample_defs accent env_no_font_def)

theorem exceptions_absorbed_witness:
  "''clean'' \<in> set default_order \<and>
   strategy_raises env_no_font ''in.pdf'' ''out.pdf'' ''clean'' title_files \<and>
   \<not> fst (run_strategy env_no_font ''in.pdf'' ''out.pdf'' ''clean'' title_files) \<and>
   process_pdf env_no_font ''in.pdf'' ''out.pdf'' ''clean'' (title_files, []) =
     run_order env_no_font ''in.pdf'' ''out.pdf''
       [''minimal'', ''direct'', ''overlay'', ''precise'', ''standard'', ''simple'']
       (title_files, [''clean''])"
proof -
  have m: "''clean'' \<in> set default_order" by (simp add: default_order_def)
  have d: "tl (dropWhile (\<lambda>s. s \<noteq> ''clean'') default_order) =
     [''minimal'', ''direct'', ''overlay'', ''precise'', ''standard'', ''simple'']"
    by (simp add: default_order_def)
  from exceptions_absorbed[OF m no_font_clean_raises, of "[]"] m no_font_clean_raises
  show ?thesis by (simp add: d no_font_clean_result del: run_order.simps)
qed

subsection \<open>What reaches the destination\<close>

lemma simple_pages_rest: "simple_pages E (Suc n) ps = ps"
  by (induction ps arbitrary: n) simp_all

lemma simple_pages_first:
  "simple_pages E 0 (p # rest) =
     (if py_in ''KYC Report'' (lib_extract_text E p) then merge_page p watermark_page else p) # rest"
  by (simp add: simple_pages_rest)

lemma simple_result:
  assumes "process_pdf_simple E files inp outp = (ok, files')"
  shows "(ok \<longrightarrow> (\<exists>pages. files inp = Some (Pdf pages) \<and> lib_can_write E outp \<and>
                     lib_write_ok E (simple_pages E 0 pages) \<and>
                     files' = files(outp \<mapsto> Pdf (simple_pages E 0 pages))))
       \<and> (\<not> ok \<longrightarrow> files' = files \<or>
             (\<exists>pages. files inp = Some (Pdf pages) \<and> lib_can_write E outp \<and>
                \<not> lib_write_ok E (simple_pages E 0 pages) \<and> files' = files(outp \<mapsto> NotPdf)))"
proof (cases "pdf_reader files inp")
  case (Inl e)
  with assms show ?thesis
    by (simp add: process_pdf_simple_def process_pdf_simple_body_def)
next
  case (Inr pages)
  then have "files inp = Some (Pdf pages)" by (simp add: pdf_reader_Inr)
  with assms Inr show ?thesis
    by (auto simp: process_pdf_simple_def process_pdf_simple_body_def Let_def split: if_splits)
qed

lemma in_place_success:
  assumes "except_return_False (in_place E files inp outp edit) = (True, files')"
  shows "\<exists>p rest q. files inp = Some (Pdf (p # rest)) \<and> edit p = Inr (Some q) \<and>
           lib_can_write E outp \<and> files' = files(outp \<mapsto> Pdf (q # rest))"
proof (cases "\<exists>p rest. files inp = Some (Pdf (p # rest))")
  case False
  then have "except_return_False (in_place E files inp outp edit) = (False, files)"
    by (intro in_place_unreadable) simp
  with assms show ?thesis by simp
next
  case True
  then obtain p rest where src: "files inp = Some (Pdf (p # rest))" by blast
  show ?thesis
  proof (cases "\<exists>q. edit p = Inr (Some q)")
    case False
    then have "except_return_False (in_place E files inp outp edit) = (False, files)"
      using src by (intro in_place_no_edit[where p=p and rest=rest]) simp_all
    with assms show ?thesis by simp
  next
    case True
    then obtain q where q: "edit p = Inr (Some q)" ..
    from in_place_edit[where files=files and inp=inp and p=p and rest=rest and edit=edit and q=q
        and E=E and outp=outp, OF src q] assms
    have "lib_can_write E outp \<and> files' = files(outp \<mapsto> Pdf (q # rest))"
      by (simp split: if_splits)
    with src q show ?thesis by blast
  qed
qed

lemma rebuild_fails:
  "\<not> fst (replace_text_direct E files inp outp old_text new_text)"
  "\<not> fst (replace_text_precise E files inp outp old_text new_text)"
  by (simp_all add: rebuild_returns)

lemma strategy_names:
  assumes "fst (run_strategy E inp outp name files)"
  shows "name = ''clean'' \<or> name = ''minimal'' \<or> name = ''overlay'' \<or> name = ''standard'' \<or>
         name = ''simple''"
  using assms rebuild_fails[where E=E and files=files and inp=inp and outp=outp and old_text="''KYC Report''" and new_text="''PD Report''"]
  by (auto simp: run_strategy_def split: if_splits)

lemma write_fails_simple:
  "run_strategy env_write_fails ''in.pdf'' ''out.pdf'' ''simple'' plain_files =
     (False, plain_files(''out.pdf'' \<mapsto> NotPdf))"
  by (simp add: run_strategy_simps strategy_defs library_defs sample_defs env_write_fails_def)

lemma write_fails_others:
  "run_strategy env_write_fails ''in.pdf'' ''out.pdf'' ''clean'' plain_files = (False, plain_files)"
  "run_strategy env_write_fails ''in.pdf'' ''out.pdf'' ''minimal'' plain_files = (False, plain_files)"
  "run_strategy env_write_fails ''in.pdf'' ''out.pdf'' ''direct'' plain_files = (False, plain_files)"
  "run_strategy env_write_fails ''in.pdf'' ''out.pdf'' ''overlay'' plain_files = (False, plain_files)"
  "run_strategy env_write_fails ''in.pdf'' ''out.pdf'' ''precise'' plain_files = (False, plain_files)"
  "run_strategy env_write_fails ''in.pdf'' ''out.pdf'' ''standard'' plain_files = (False, plain_files)"
  by (simp_all add: run_strategy_simps strategy_defs library_defs sample_defs env_write_fails_def)

text \<open>
  A save that raises part-way: \<^verbatim>\<open>replace_text_clean\<close> returns \<^verbatim>\<open>False\<close> and the
  destination holds no document.
\<close>

lemma truncated_save_residue:
  "replace_text_clean env_save_breaks title_files ''in.pdf'' ''out.pdf'' ''KYC Report'' ''PD Report'' =
     (False, title_files(''out.pdf'' \<mapsto> NotPdf))"
  by (simp add: strategy_defs library_defs sample_defs accent env_save_breaks_def)

text \<open>
  The strategies after it find the source as it was and fail on their own save in the
  same way (\<^verbatim>\<open>direct\<close> and \<^verbatim>\<open>precise\<close> raise before they save), so the file is
  reported failed after all seven were called, and the destination holds no document.
\<close>

lemma save_breaks_steps:
  "run_strategy env_save_breaks ''in.pdf'' ''out.pdf'' ''clean'' title_files =
     (False, title_files(''out.pdf'' \<mapsto> NotPdf))"
  "run_strategy env_save_breaks ''in.pdf'' ''out.pdf'' ''minimal'' (title_files(''out.pdf'' \<mapsto> NotPdf)) =
     (False, title_files(''out.pdf'' \<mapsto> NotPdf))"
  "run_strategy env_save_breaks ''in.pdf'' ''out.pdf'' ''direct'' (title_files(''out.pdf'' \<mapsto> NotPdf)) =
     (False, title_files(''out.pdf'' \<mapsto> NotPdf))"
  "run_strategy env_save_breaks ''in.pdf'' ''out.pdf'' ''overlay'' (title_files(''out.pdf'' \<mapsto> NotPdf)) =
     (False, title_files(''out.pdf'' \<mapsto> NotPdf))"
  "run_strategy env_save_breaks ''in.pdf'' ''out.pdf'' ''precise'' (title_files(''out.pdf'' \<mapsto> NotPdf)) =
     (False, title_files(''out.pdf'' \<mapsto> NotPdf))"
  "run_strategy env_save_breaks ''in.pdf'' ''out.pdf'' ''standard'' (title_files(''out.pdf'' \<mapsto> NotPdf)) =
     (False, title_files(''out.pdf'' \<mapsto> NotPdf))"
  "run_strategy env_save_breaks ''in.pdf'' ''out.pdf'' ''simple'' (title_files(''out.pdf'' \<mapsto> NotPdf)) =
     (False, title_files(''out.pdf'' \<mapsto> NotPdf))"
  by (simp_all add: run_strategy_simps rebuild_returns)
     (simp_all add: strategy_defs library_defs sample_defs accent env_save_breaks_def)

lemma truncated_save_pipeline:
  "process_pdf env_save_breaks ''in.pdf'' ''out.pdf'' ''clean'' (title_files, []) =
     (False, (title_files(''out.pdf'' \<mapsto> NotPdf), default_order))"
  by (simp add: from_clean_run default_order_def attempt_def save_breaks_steps)

lemma residue_differs: "title_files(''out.pdf'' \<mapsto> NotPdf) \<noteq> title_files"
  by (simp add: fun_upd_idem_iff title_files_def)

text \<open>
  C4, as stated, fails in its last part: when no strategy finds the text and the write
  of \<^verbatim>\<open>simple\<close> raises after the destination was opened, the file is reported failed
  and the destination, absent before, exists and holds no document.
\<close>

theorem partial_output_counterexample:
  "plain_files ''out.pdf'' = None \<and>
   fst (process_pdf env_write_fails ''in.pdf'' ''out.pdf'' ''clean'' (plain_files, [])) = False \<and>
   fst (snd (process_pdf env_write_fails ''in.pdf'' ''out.pdf'' ''clean'' (plain_files, []))) ''out.pdf''
     = Some NotPdf"
  by (simp add: from_clean_run default_order_def attempt_def write_fails_simple write_fails_others)
     (simp add: plain_files_def)

text \<open>
  C4, amended. When \<^verbatim>\<open>process_pdf\<close> reports success, the destination holds the document
  written by exactly one strategy, the last one called, and it is what that strategy
  alone writes when run on the file system as it was at the start; no other path
  changes. When it reports failure, the file system is as it was at the start, except
  when a write raised after the destination was opened, in a strategy that was called:
  a \<^verbatim>\<open>doc.save\<close> that raises part-way, or the \<^verbatim>\<open>write\<close> of \<^verbatim>\<open>simple\<close>. Then the
  destination holds no document, and no other path changes.
\<close>

theorem one_strategy_persisted:
  assumes "process_pdf E inp outp method (files, calls) = (ok, (files', calls'))"
  shows "(ok \<longrightarrow> (\<exists>s doc'. s \<in> set default_order \<and> calls' \<noteq> [] \<and> last calls' = s \<and>
                    run_strategy E inp outp s files = (True, files') \<and>
                    files' = files(outp \<mapsto> Pdf doc')))
       \<and> (\<not> ok \<longrightarrow> files' = files \<or>
             (files' = files(outp \<mapsto> NotPdf) \<and>
              (\<exists>s. s \<in> set default_order \<and> s \<in> set calls' \<and>
                   run_strategy E inp outp s files = (False, files(outp \<mapsto> NotPdf)))))"
proof (cases "method \<in> set default_order")
  case False
  from unknown_method_result[OF False] assms show ?thesis by simp
next
  case True
  let ?ss = "dropWhile (\<lambda>s. s \<noteq> method) default_order"
  from assms process_pdf_run_order[OF True]
  have r: "run_order E inp outp ?ss (files, calls) = (ok, (files', calls'))" by simp
  have sub: "set ?ss \<subseteq> set default_order" by (auto dest: set_dropWhileD)
  note f = run_order_files[OF suffix_no_early_simple[OF True] sub r]
  show ?thesis
  proof (intro conjI impI)
    assume ok
    with f obtain s d where s: "s \<in> set ?ss" "calls' \<noteq> []" "last calls' = s"
      "files' = files(outp \<mapsto> Pdf d)"
      "run_strategy E inp outp s files = (True, files(outp \<mapsto> Pdf d))" by blast
    from s(1) sub have "s \<in> set default_order" by blast
    with s show "\<exists>s doc'. s \<in> set default_order \<and> calls' \<noteq> [] \<and> last calls' = s \<and>
                    run_strategy E inp outp s files = (True, files') \<and>
                    files' = files(outp \<mapsto> Pdf doc')"
      by (intro exI[of _ s] exI[of _ d]) simp
  next
    assume "\<not> ok"
    with f show "files' = files \<or>
             (files' = files(outp \<mapsto> NotPdf) \<and>
              (\<exists>s. s \<in> set default_order \<and> s \<in> set calls' \<and>
                   run_strategy E inp outp s files = (False, files(outp \<mapsto> NotPdf))))"
      by blast
  qed
qed

theorem one_strategy_persisted_witness:
  "process_pdf env0 ''in.pdf'' ''out.pdf'' ''clean'' (title_files, []) =
     (True, (snd (run_strategy env0 ''in.pdf'' ''out.pdf'' ''clean'' title_files), [''clean''])) \<and>
   (\<exists>s doc'. s \<in> set default_order \<and> last [''clean''] = s \<and>
      run_strategy env0 ''in.pdf'' ''out.pdf'' s title_files =
        (True, snd (run_strategy env0 ''in.pdf'' ''out.pdf'' ''clean'' title_files)) \<and>
      snd (run_strategy env0 ''in.pdf'' ''out.pdf'' ''clean'' title_files) =
        title_files(''out.pdf'' \<mapsto> Pdf doc')) \<and>
   process_pdf env_save_breaks ''in.pdf'' ''out.pdf'' ''clean'' (title_files, []) =
     (False, (title_files(''out.pdf'' \<mapsto> NotPdf), default_order)) \<and>
   (\<exists>s. s \<in> set default_order \<and>
      run_strategy env_save_breaks ''in.pdf'' ''out.pdf'' s title_files =
        (False, title_files(''out.pdf'' \<mapsto> NotPdf)))"
proof -
  have p: "process_pdf env0 ''in.pdf'' ''out.pdf'' ''clean'' (title_files, []) =
     (True, (snd (run_strategy env0 ''in.pdf'' ''out.pdf'' ''clean'' title_files), [''clean'']))"
    by (simp add: from_clean_run default_order_def attempt_def title_clean)
  have a: "\<exists>s doc'. s \<in> set default_order \<and> last [''clean''] = s \<and>
      run_strategy env0 ''in.pdf'' ''out.pdf'' s title_files =
        (True, snd (run_strategy env0 ''in.pdf'' ''out.pdf'' ''clean'' title_files)) \<and>
      snd (run_strategy env0 ''in.pdf'' ''out.pdf'' ''clean'' title_files) =
        title_files(''out.pdf'' \<mapsto> Pdf doc')"
    using one_strategy_persisted[OF p] by simp
  have b: "\<exists>s. s \<in> set default_order \<and>
      run_strategy env_save_breaks ''in.pdf'' ''out.pdf'' s title_files =
        (False, title_files(''out.pdf'' \<mapsto> NotPdf))"
    using one_strategy_persisted[OF truncated_save_pipeline] residue_differs by simp
  from p a truncated_save_pipeline b show ?thesis by (intro conjI)
qed

subsection \<open>The simple strategy on page 0\<close>

text \<open>
  C2, as stated, fails: on a first page without \<^verbatim>\<open>"KYC Report"\<close> the simple strategy
  reports success and writes the pages as they are, with no watermark.
\<close>

theorem simple_not_unconditional_counterexample:
  "\<not> py_in ''KYC Report'' (lib_extract_text env0 plain_page) \<and>
   process_pdf_simple env0 plain_files ''in.pdf'' ''out.pdf'' =
     (True, plain_files(''out.pdf'' \<mapsto> Pdf [plain_page, plain_page])) \<and>
   page_texts plain_page = [''Quarterly summary'']"
  using plain_simple
  by (simp add: run_strategy_simps) (simp add: library_defs sample_defs)

text \<open>
  C2, amended. For a readable source and a destination that can be written, the simple
  strategy reports success; it looks for \<^verbatim>\<open>"KYC Report"\<close> in the text extracted from
  page 0 and overlays \<^verbatim>\<open>"PD Report"\<close> (Helvetica-Bold 24, blue, at \<open>(50, 692)\<close>) on
  page 0 only when it is found; otherwise page 0 is written unchanged. The other pages
  are written unchanged in both cases.
\<close>

theorem simple_watermarks_when_found:
  assumes "files inp = Some (Pdf (p # rest))" and "lib_can_write E outp"
    and "lib_write_ok E (simple_pages E 0 (p # rest))"
  shows "process_pdf_simple E files inp outp =
           (True, files(outp \<mapsto> Pdf
              ((if py_in ''KYC Report'' (lib_extract_text E p)
                then p\<lparr>content := content p @
                         [DrawString (50, 692) ''PD Report'' ''Helvetica-Bold'' 24 [0, 0, 1]]\<rparr>
                else p) # rest)))"
proof -
  have "pdf_reader files inp = Inr (p # rest)" using assms(1) by (simp add: pdf_reader_Inr)
  with assms(2,3) have "process_pdf_simple E files inp outp =
      (True, files(outp \<mapsto> Pdf (simple_pages E 0 (p # rest))))"
    by (simp add: process_pdf_simple_def process_pdf_simple_body_def)
  then show ?thesis
    by (simp add: simple_pages_rest merge_page_def watermark_page_def)
qed

theorem simple_watermarks_when_found_witness:
  "title_files ''in.pdf'' = Some (Pdf (title_page # [plain_page])) \<and>
   lib_can_write env0 ''out.pdf'' \<and>
   lib_write_ok env0 (simple_pages env0 0 (title_page # [plain_page])) \<and>
   process_pdf_simple env0 title_files ''in.pdf'' ''out.pdf'' =
     (True, title_files(''out.pdf'' \<mapsto> Pdf
        [title_page\<lparr>content := content title_page @
            [DrawString (50, 692) ''PD Report'' ''Helvetica-Bold'' 24 [0, 0, 1]]\<rparr>, plain_page]))"
proof -
  have a: "title_files ''in.pdf'' = Some (Pdf (title_page # [plain_page]))"
    by (simp add: title_files_def)
  have b: "lib_can_write env0 ''out.pdf''" by (simp add: env0_def)
  have c: "lib_write_ok env0 (simple_pages env0 0 (title_page # [plain_page]))"
    by (simp add: env0_def)
  have d: "py_in ''KYC Report'' (lib_extract_text env0 title_page)"
    by (simp add: library_defs sample_defs)
  from simple_watermarks_when_found[of title_files "''in.pdf''" title_page "[plain_page]" env0 "''out.pdf''", OF a b c]
    a b c d show ?thesis by simp
qed

subsection \<open>The clean strategy on the title span\<close>

lemma find_in_spans_mem: "find_in_spans old_text sps = Some sp \<Longrightarrow> sp \<in> set sps"
  by (induction sps) (auto split: if_splits)

lemma find_in_lines_mem: "find_in_lines old_text ls = Some sp \<Longrightarrow> sp \<in> set (concat ls)"
  by (induction ls) (auto split: option.splits dest: find_in_spans_mem)

lemma find_target_span_mem:
  "find_target_span old_text bs = Some sp \<Longrightarrow> sp \<in> set (all_spans bs)"
  by (induction old_text bs rule: find_target_span.induct)
     (auto simp: all_spans_def split: option.splits dest: find_in_lines_mem)

lemma block_span_text: "sp \<in> set (block_spans b) \<Longrightarrow> span_text sp \<in> set (item_texts (Blk b))"
  by (cases b) auto

lemma item_span_text:
  "sp \<in> set (all_spans (item_blocks xs)) \<Longrightarrow> \<exists>x \<in> set xs. span_text sp \<in> set (item_texts x)"
proof (induction xs rule: item_blocks.induct)
  case 1
  then show ?case by (simp add: all_spans_def)
next
  case (2 b xs)
  from "2.prems" have "sp \<in> set (block_spans b) \<or> sp \<in> set (all_spans (item_blocks xs))"
    by (auto simp: all_spans_def)
  then show ?case
  proof
    assume "sp \<in> set (block_spans b)"
    from block_span_text[OF this] show ?thesis by simp
  next
    assume "sp \<in> set (all_spans (item_blocks xs))"
    from "2.IH"[OF this] show ?thesis by auto
  qed
qed auto

lemma page_texts_spans:
  "sp \<in> set (all_spans (get_text_blocks p)) \<Longrightarrow> span_text sp \<in> set (page_texts p)"
  using item_span_text[of sp "content p"] by (auto simp: get_text_blocks_def page_texts_def)

text \<open>
  C5, as stated, fails: on the page with the span
  \<^verbatim>\<open>"2024 KYC Report - Confidential"\<close> the clean strategy covers the span and writes
  \<^verbatim>\<open>"PD Report"\<close> alone; the text of the page still contains \<^verbatim>\<open>"KYC Report"\<close> and
  does not contain \<^verbatim>\<open>"2024 PD Report - Confidential"\<close>.
\<close>

theorem clean_keeps_old_text_counterexample:
  "replace_text_clean env0 title_files ''in.pdf'' ''out.pdf'' ''KYC Report'' ''PD Report'' =
     (True, title_files(''out.pdf'' \<mapsto> Pdf
        [title_page\<lparr>content := content title_page @
            [FilledRect (47, 697, 303, 718) [1, 1, 1] [1, 1, 1],
             InsertedText (50, 710) ''PD Report'' 14 ''Helvetica-Bold'' [0, 2 / 5, 4 / 5]]\<rparr>,
         plain_page])) \<and>
   page_texts (title_page\<lparr>content := content title_page @
            [FilledRect (47, 697, 303, 718) [1, 1, 1] [1, 1, 1],
             InsertedText (50, 710) ''PD Report'' 14 ''Helvetica-Bold'' [0, 2 / 5, 4 / 5]]\<rparr>)
     = [''2024 KYC Report - Confidential'', ''PD Report''] \<and>
   py_in ''KYC Report'' (page_text (title_page\<lparr>content := content title_page @
            [FilledRect (47, 697, 303, 718) [1, 1, 1] [1, 1, 1],
             InsertedText (50, 710) ''PD Report'' 14 ''Helvetica-Bold'' [0, 2 / 5, 4 / 5]]\<rparr>)) \<and>
   \<not> py_in ''2024 PD Report - Confidential'' (page_text (title_page\<lparr>content := content title_page @
            [FilledRect (47, 697, 303, 718) [1, 1, 1] [1, 1, 1],
             InsertedText (50, 710) ''PD Report'' 14 ''Helvetica-Bold'' [0, 2 / 5, 4 / 5]]\<rparr>))"
  using title_clean
  by (simp add: run_strategy_simps) (simp add: library_defs sample_defs)

text \<open>
  C5, amended. On a page whose target span is that span, when the library accepts the
  text and the destination can be written, the clean strategy draws a white rectangle
  over the box widened by 3, \<open>(47, 697, 303, 718)\<close>, and writes \<^verbatim>\<open>"PD Report"\<close> at
  \<open>(50, 710)\<close>, that is at the left edge of the box and 5 above its bottom, in
  Helvetica-Bold of size 14 and colour \<open>(0, 102/255, 204/255)\<close>. Nothing is removed:
  the text of the page is the text it had, the span included, followed by
  \<^verbatim>\<open>"PD Report"\<close>.
\<close>

theorem clean_on_title_span:
  assumes "files inp = Some (Pdf (p # rest))"
    and "find_target_span ''KYC Report'' (get_text_blocks p) = Some title_span"
    and "lib_insert_ok E (InsertedText (50, 710) ''PD Report'' 14 ''Helvetica-Bold''
            [0, 102 / 255, 204 / 255])"
    and "lib_can_write E outp"
  shows "replace_text_clean E files inp outp ''KYC Report'' ''PD Report'' =
           (True, files(outp \<mapsto> Pdf
              (p\<lparr>content := content p @
                  [FilledRect (47, 697, 303, 718) [1, 1, 1] [1, 1, 1],
                   InsertedText (50, 710) ''PD Report'' 14 ''Helvetica-Bold''
                     [0, 102 / 255, 204 / 255]]\<rparr> # rest)))
       \<and> page_texts (p\<lparr>content := content p @
                  [FilledRect (47, 697, 303, 718) [1, 1, 1] [1, 1, 1],
                   InsertedText (50, 710) ''PD Report'' 14 ''Helvetica-Bold''
                     [0, 102 / 255, 204 / 255]]\<rparr>) = page_texts p @ [''PD Report'']
       \<and> ''2024 KYC Report - Confidential'' \<in> set (page_texts p)"
proof -
  have o: "fitz_open files inp = Inr (p # rest)" using assms(1) by (simp add: fitz_open_Inr)
  have r: "replace_text_clean E files inp outp ''KYC Report'' ''PD Report'' =
           (True, files(outp \<mapsto> Pdf
              (p\<lparr>content := content p @
                  [FilledRect (47, 697, 303, 718) [1, 1, 1] [1, 1, 1],
                   InsertedText (50, 710) ''PD Report'' 14 ''Helvetica-Bold''
                     [0, 102 / 255, 204 / 255]]\<rparr> # rest)))"
    using assms(2,3,4)
    by (simp add: replace_text_clean_def replace_text_clean_body_def o step_def load_page0_def
        except_return_False_def title_span_def accent draw_rect_def insert_text_def doc_save_def)
  have t: "page_texts (p\<lparr>content := content p @
                  [FilledRect (47, 697, 303, 718) [1, 1, 1] [1, 1, 1],
                   InsertedText (50, 710) ''PD Report'' 14 ''Helvetica-Bold''
                     [0, 102 / 255, 204 / 255]]\<rparr>) = page_texts p @ [''PD Report'']"
    by (simp add: page_texts_def)
  from page_texts_spans[OF find_target_span_mem[OF assms(2)]]
  have "span_text title_span \<in> set (page_texts p)" .
  then have "''2024 KYC Report - Confidential'' \<in> set (page_texts p)"
    by (simp add: title_span_def)
  with r t show ?thesis by simp
qed

theorem clean_on_title_span_witness:
  "title_files ''in.pdf'' = Some (Pdf (title_page # [plain_page])) \<and>
   find_target_span ''KYC Report'' (get_text_blocks title_page) = Some title_span \<and>
   lib_insert_ok env0 (InsertedText (50, 710) ''PD Report'' 14 ''Helvetica-Bold''
            [0, 102 / 255, 204 / 255]) \<and>
   lib_can_write env0 ''out.pdf'' \<and>
   page_texts (title_page\<lparr>content := content title_page @
                  [FilledRect (47, 697, 303, 718) [1, 1, 1] [1, 1, 1],
                   InsertedText (50, 710) ''PD Report'' 14 ''Helvetica-Bold''
                     [0, 102 / 255, 204 / 255]]\<rparr>) = page_texts title_page @ [''PD Report''] \<and>
   ''2024 KYC Report - Confidential'' \<in> set (page_texts title_page)"
proof -
  have a: "title_files ''in.pdf'' = Some (Pdf (title_page # [plain_page]))"
    by (simp add: title_files_def)
  have b: "find_target_span ''KYC Report'' (get_text_blocks title_page) = Some title_span"
    by (simp add: get_text_blocks_def title_page_def title_span_def)
  have c: "lib_insert_ok env0 (InsertedText (50, 710) ''PD Report'' 14 ''Helvetica-Bold''
            [0, 102 / 255, 204 / 255])"
    by (simp add: env0_def)
  have d: "lib_can_write env0 ''out.pdf''" by (simp add: env0_def)
  from clean_on_title_span[of title_files "''in.pdf''" title_page "[plain_page]" env0 "''out.pdf''",
      OF a b c d] a b c d
  show ?thesis by blast
qed

subsection \<open>The rebuilt page\<close>

lemma copy_span_content:
  assumes "copy_span E old_text new_text sp np = Inr np'"
  shows "content np' = content np @
           (if py_strip (copied_text old_text new_text sp) \<noteq> [] then [copied_item old_text new_text sp]
            else [])"
proof (cases "py_strip (copied_text old_text new_text sp) \<noteq> []")
  case False
  with assms show ?thesis by (simp add: copy_span_def)
next
  case True
  obtain x0 y0 x1 y1 where bb: "span_bbox sp = (x0, y0, x1, y1)" by (cases "span_bbox sp") auto
  from assms True bb show ?thesis
    by (auto simp: copy_span_def copied_item_def accent bind_err_def insert_text_def Let_def
        split: if_splits)
qed

lemma copy_spans_content:
  "copy_spans E old_text new_text sps np = Inr np' \<Longrightarrow>
   content np' = content np @ map (copied_item old_text new_text)
     (filter (\<lambda>sp. py_strip (copied_text old_text new_text sp) \<noteq> []) sps)"
proof (induction sps arbitrary: np)
  case Nil
  then show ?case by simp
next
  case (Cons sp sps)
  from Cons.prems obtain np1 where a: "copy_span E old_text new_text sp np = Inr np1"
    and b: "copy_spans E old_text new_text sps np1 = Inr np'"
    by (auto split: sum.splits)
  from copy_span_content[OF a] Cons.IH[OF b] show ?case by simp
qed

lemma copy_lines_content:
  "copy_lines E old_text new_text ls np = Inr np' \<Longrightarrow>
   content np' = content np @ map (copied_item old_text new_text)
     (filter (\<lambda>sp. py_strip (copied_text old_text new_text sp) \<noteq> []) (concat ls))"
proof (induction ls arbitrary: np)
  case Nil
  then show ?case by simp
next
  case (Cons l ls)
  from Cons.prems obtain np1 where a: "copy_spans E old_text new_text l np = Inr np1"
    and b: "copy_lines E old_text new_text ls np1 = Inr np'"
    by (auto split: sum.splits)
  from copy_spans_content[OF a] Cons.IH[OF b] show ?case by simp
qed

lemma copy_blocks_content:
  "copy_blocks E old_text new_text bs np = Inr np' \<Longrightarrow>
   content np' = content np @ map (copied_item old_text new_text)
     (filter (\<lambda>sp. py_strip (copied_text old_text new_text sp) \<noteq> []) (all_spans bs))"
proof (induction E old_text new_text bs np rule: copy_blocks.induct)
  case (1 E old_text new_text np)
  then show ?case by (simp add: all_spans_def)
next
  case (2 E old_text new_text ls bs np)
  from "2.prems" obtain np1 where a: "copy_lines E old_text new_text ls np = Inr np1"
    and b: "copy_blocks E old_text new_text bs np1 = Inr np'"
    by (auto split: sum.splits)
  from copy_lines_content[OF a] "2.IH"[OF a b] show ?case by (simp add: all_spans_def)
next
  case (3 E old_text new_text r bs np)
  then show ?case by (simp add: all_spans_def)
qed

lemma copied_item_shape:
  assumes "span_bbox sp = (x0, y0, x1, y1)"
  shows "\<exists>col. copied_item old_text new_text sp =
           InsertedText (x0, y1 - 2) (copied_text old_text new_text sp) (span_size sp) (span_font sp) col
       \<and> (py_in new_text (copied_text old_text new_text sp) \<longrightarrow> col = [0, 102 / 255, 204 / 255])
       \<and> (\<not> py_in new_text (copied_text old_text new_text sp) \<longrightarrow>
            (\<forall>cs. span_color sp = Some (ColSeq cs) \<and> length cs \<in> {1, 3, 4} \<longrightarrow> col = cs) \<and>
            (span_color sp = None \<or> span_color sp = Some ColOther \<or>
             (\<exists>cs. span_color sp = Some (ColSeq cs) \<and> length cs \<notin> {1, 3, 4}) \<longrightarrow> col = [0, 0, 0]))"
  using assms by (auto simp: copied_item_def other_span_color_def)

lemma copy_sample:
  "copy_blocks env0 ''KYC Report'' ''PD Report'' [TextBlock [[title_span, blank_span, tuple_span]]]
     \<lparr>pwidth = 612, pheight = 792, content = []\<rparr> =
   Inr \<lparr>pwidth = 612, pheight = 792, content =
     [InsertedText (50, 713) ''2024 PD Report - Confidential'' 14 ''Helvetica-Bold'' [0, 2 / 5, 4 / 5],
      InsertedText (50, 110) ''Quarterly summary'' 11 ''Helvetica'' [1, 0, 0]]\<rparr>"
  by (simp add: copy_span_def copied_text_def py_replace_def replace_scan.simps py_strip_def
      py_isspace_def other_span_color_def accent bind_err_def insert_text_def env0_def
      title_span_def blank_span_def tuple_span_def)

text \<open>
  C7, as stated, fails: a span of blanks is not copied to the new page. Of the three
  spans of the sample block, two are drawn.
\<close>

theorem blank_span_not_copied_counterexample:
  "all_spans [TextBlock [[title_span, blank_span, tuple_span]]] = [title_span, blank_span, tuple_span] \<and>
   copy_blocks env0 ''KYC Report'' ''PD Report'' [TextBlock [[title_span, blank_span, tuple_span]]]
     \<lparr>pwidth = 612, pheight = 792, content = []\<rparr> =
   Inr \<lparr>pwidth = 612, pheight = 792, content =
     [InsertedText (50, 713) ''2024 PD Report - Confidential'' 14 ''Helvetica-Bold'' [0, 2 / 5, 4 / 5],
      InsertedText (50, 110) ''Quarterly summary'' 11 ''Helvetica'' [1, 0, 0]]\<rparr>"
  using copy_sample by (simp add: all_spans_def)

text \<open>
  C7, amended. In \<^verbatim>\<open>replace_text_direct\<close> and \<^verbatim>\<open>replace_text_precise\<close>, whose bodies are
  the same, when every \<^verbatim>\<open>insert_text\<close> is accepted the new page receives, in reading
  order, one text for every span whose copied text is not blank: at
  \<open>(bbox[0], bbox[3] - 2)\<close>, with the span's font and size. The copied text is the
  span's text with the old text replaced, and the span's text itself when it does not
  contain the old text. A text that contains the new text is drawn in
  \<open>(0, 102/255, 204/255)\<close>; any other keeps a colour that is a tuple or list of 1, 3
  or 4 components, and is drawn black when the colour is missing, is a tuple or list of
  another length, or is neither a number nor a tuple or list.
\<close>

theorem rebuild_copies_spans:
  assumes "copy_blocks E old_text new_text blocks np = Inr np'"
  shows "content np' = content np @ map (copied_item old_text new_text)
           (filter (\<lambda>sp. py_strip (copied_text old_text new_text sp) \<noteq> []) (all_spans blocks))
       \<and> (\<forall>sp. \<not> py_in old_text (span_text sp) \<longrightarrow> copied_text old_text new_text sp = span_text sp)
       \<and> (\<forall>sp. py_in old_text (span_text sp) \<longrightarrow>
             copied_text old_text new_text sp = py_replace old_text new_text (span_text sp))
       \<and> (\<forall>sp x0 y0 x1 y1. span_bbox sp = (x0, y0, x1, y1) \<longrightarrow>
            (\<exists>col. copied_item old_text new_text sp =
                InsertedText (x0, y1 - 2) (copied_text old_text new_text sp)
                  (span_size sp) (span_font sp) col
              \<and> (py_in new_text (copied_text old_text new_text sp) \<longrightarrow>
                   col = [0, 102 / 255, 204 / 255])
              \<and> (\<not> py_in new_text (copied_text old_text new_text sp) \<longrightarrow>
                   (\<forall>cs. span_color sp = Some (ColSeq cs) \<and> length cs \<in> {1, 3, 4} \<longrightarrow> col = cs) \<and>
                   (span_color sp = None \<or> span_color sp = Some ColOther \<or>
                    (\<exists>cs. span_color sp = Some (ColSeq cs) \<and> length cs \<notin> {1, 3, 4})
                    \<longrightarrow> col = [0, 0, 0]))))
       \<and> replace_text_precise_body E files inp outp old_text new_text =
           replace_text_direct_body E files inp outp old_text new_text"
proof -
  have "replace_text_precise_body E files inp outp old_text new_text =
           replace_text_direct_body E files inp outp old_text new_text"
    by (simp add: replace_text_precise_body_def replace_text_direct_body_def)
  with copy_blocks_content[OF assms] copied_item_shape[of _ _ _ _ _ old_text new_text]
  show ?thesis by (simp add: copied_text_def)
qed

theorem rebuild_copies_spans_witness:
  "content \<lparr>pwidth = 612, pheight = 792, content =
     [InsertedText (50, 713) ''2024 PD Report - Confidential'' 14 ''Helvetica-Bold'' [0, 2 / 5, 4 / 5],
      InsertedText (50, 110) ''Quarterly summary'' 11 ''Helvetica'' [1, 0, 0]]\<rparr> =
   content \<lparr>pwidth = 612, pheight = 792, content = []\<rparr> @
     map (copied_item ''KYC Report'' ''PD Report'')
       (filter (\<lambda>sp. py_strip (copied_text ''KYC Report'' ''PD Report'' sp) \<noteq> [])
          (all_spans [TextBlock [[title_span, blank_span, tuple_span]]]))
   \<and> \<not> py_in ''KYC Report'' (span_text tuple_span)
   \<and> copied_text ''KYC Report'' ''PD Report'' tuple_span = span_text tuple_span"
proof -
  note t = rebuild_copies_spans[OF copy_sample]
  have n: "\<not> py_in ''KYC Report'' (span_text tuple_span)" by (simp add: tuple_span_def)
  have c: "copied_text ''KYC Report'' ''PD Report'' tuple_span = span_text tuple_span"
    by (rule t[THEN conjunct2, THEN conjunct1, rule_format, OF n])
  from t[THEN conjunct1] n c show ?thesis by (intro conjI)
qed

subsection \<open>Only page 0 changes\<close>

lemma on_page0_shape:
  "length (on_page0 f doc) = length doc \<and> drop 1 (on_page0 f doc) = drop 1 doc"
  by (cases doc) (simp_all add: on_page0_def)

lemma in_place_page0:
  "\<exists>f. \<forall>files files'.
     except_return_False (in_place E files inp outp edit) = (True, files')
     \<longrightarrow> (\<exists>doc. files inp = Some (Pdf doc) \<and> files' = files(outp \<mapsto> Pdf (on_page0 f doc)))"
proof -
  let ?f = "\<lambda>p. case edit p of Inr (Some q) \<Rightarrow> q | _ \<Rightarrow> p"
  have "\<exists>doc. files inp = Some (Pdf doc) \<and> files' = files(outp \<mapsto> Pdf (on_page0 ?f doc))"
    if "except_return_False (in_place E files inp outp edit) = (True, files')"
    for files files'
  proof -
    from in_place_success[OF that] obtain p rest q where
      a: "files inp = Some (Pdf (p # rest))" "edit p = Inr (Some q)"
         "files' = files(outp \<mapsto> Pdf (q # rest))" by blast
    then have "on_page0 ?f (p # rest) = q # rest" by (simp add: on_page0_def)
    with a show ?thesis by auto
  qed
  then show ?thesis by blast
qed

lemma simple_page0:
  "\<exists>f. \<forall>files files'. process_pdf_simple E files inp outp = (True, files')
     \<longrightarrow> (\<exists>doc. files inp = Some (Pdf doc) \<and> files' = files(outp \<mapsto> Pdf (on_page0 f doc)))"
proof -
  let ?f = "\<lambda>p. if py_in ''KYC Report'' (lib_extract_text E p) then merge_page p watermark_page else p"
  have s: "simple_pages E 0 pages = on_page0 ?f pages" for pages
    by (cases pages) (simp_all add: on_page0_def simple_pages_rest)
  have "\<exists>doc. files inp = Some (Pdf doc) \<and> files' = files(outp \<mapsto> Pdf (on_page0 ?f doc))"
    if "process_pdf_simple E files inp outp = (True, files')" for files files'
    using simple_result[OF that] s by auto
  then show ?thesis by blast
qed

lemma page0_with_shape:
  assumes "\<exists>f. \<forall>files files'. R files files' \<longrightarrow>
     (\<exists>doc. files inp = Some (Pdf doc) \<and> files' = files(outp \<mapsto> Pdf (on_page0 f doc)))"
  shows "\<exists>f. \<forall>files files'. R files files' \<longrightarrow>
     (\<exists>doc. files inp = Some (Pdf doc) \<and> files' = files(outp \<mapsto> Pdf (on_page0 f doc)) \<and>
            length (on_page0 f doc) = length doc \<and> drop 1 (on_page0 f doc) = drop 1 doc)"
proof -
  from assms obtain f where f: "\<forall>files files'. R files files' \<longrightarrow>
     (\<exists>doc. files inp = Some (Pdf doc) \<and> files' = files(outp \<mapsto> Pdf (on_page0 f doc)))" ..
  have "\<exists>doc. files inp = Some (Pdf doc) \<and> files' = files(outp \<mapsto> Pdf (on_page0 f doc)) \<and>
            length (on_page0 f doc) = length doc \<and> drop 1 (on_page0 f doc) = drop 1 doc"
    if "R files files'" for files files'
  proof -
    from f[rule_format, OF that] obtain doc where "files inp = Some (Pdf doc)"
      "files' = files(outp \<mapsto> Pdf (on_page0 f doc))" by (elim exE conjE)
    with on_page0_shape[of f doc] show ?thesis by (intro exI[of _ doc]) simp
  qed
  then show ?thesis by (intro exI[of _ f] allI impI)
qed

text \<open>
  C6. For each strategy there is an edit of pages, fixed by the strategy and the library
  alone, such that every run that reports success reads a document from the source and
  writes that document with the edit applied to page 0: the page count is the same and
  the pages after page 0 are the pages of the input.
\<close>

theorem success_changes_page0_only:
  "\<exists>f. \<forall>files files'. run_strategy E inp outp name files = (True, files') \<longrightarrow>
     (\<exists>doc. files inp = Some (Pdf doc) \<and> files' = files(outp \<mapsto> Pdf (on_page0 f doc)) \<and>
            length (on_page0 f doc) = length doc \<and> drop 1 (on_page0 f doc) = drop 1 doc)"
proof -
  show ?thesis
  proof (cases "\<exists>files. fst (run_strategy E inp outp name files)")
    case False
    then have "run_strategy E inp outp name files \<noteq> (True, files')" for files files'
      by (metis fst_conv)
    then show ?thesis by simp
  next
    case True
    then obtain files0 where "fst (run_strategy E inp outp name files0)" ..
    from strategy_names[OF this] consider "name = ''clean''" | "name = ''minimal''"
      | "name = ''overlay''" | "name = ''standard''" | "name = ''simple''" by blast
    then show ?thesis
    proof cases
    case 1
    have e: "run_strategy E inp outp name = (\<lambda>files.
        except_return_False (in_place E files inp outp (clean_edit E ''KYC Report'' ''PD Report'')))"
      by (simp add: 1 run_strategy_simps replace_text_clean_def clean_in_place)
    show ?thesis unfolding e by (rule page0_with_shape[OF in_place_page0])
  next
    case 2
    have e: "run_strategy E inp outp name = (\<lambda>files.
        except_return_False (in_place E files inp outp (minimal_edit E ''KYC Report'' ''PD Report'')))"
      by (simp add: 2 run_strategy_simps replace_text_minimal_def minimal_in_place)
    show ?thesis unfolding e by (rule page0_with_shape[OF in_place_page0])
  next
    case 3
    have e: "run_strategy E inp outp name = (\<lambda>files.
        except_return_False (in_place E files inp outp (overlay_edit E ''KYC Report'' ''PD Report'')))"
      by (simp add: 3 run_strategy_simps replace_text_overlay_def overlay_in_place)
    show ?thesis unfolding e by (rule page0_with_shape[OF in_place_page0])
  next
    case 4
    have e: "run_strategy E inp outp name = (\<lambda>files.
        except_return_False (in_place E files inp outp (standard_edit E ''KYC Report'' ''PD Report'')))"
      by (simp add: 4 run_strategy_simps replace_text_in_pdf_def standard_in_place)
    show ?thesis unfolding e by (rule page0_with_shape[OF in_place_page0])
  next
    case 5
    have e: "run_strategy E inp outp name = (\<lambda>files. process_pdf_simple E files inp outp)"
      by (simp add: 5 run_strategy_simps)
    show ?thesis unfolding e by (rule page0_with_shape[OF simple_page0])
    qed
  qed
qed

lemma page0_witness_step:
  assumes f: "\<forall>files files'.
     run_strategy env0 ''in.pdf'' ''out.pdf'' ''clean'' files = (True, files') \<longrightarrow>
     (\<exists>doc. files ''in.pdf'' = Some (Pdf doc) \<and> files' = files(''out.pdf'' \<mapsto> Pdf (on_page0 f doc)) \<and>
            length (on_page0 f doc) = length doc \<and> drop 1 (on_page0 f doc) = drop 1 doc)"
  shows "run_strategy env0 ''in.pdf'' ''out.pdf'' ''clean'' title_files =
          (True, title_files(''out.pdf'' \<mapsto> Pdf (on_page0 f [title_page, plain_page]))) \<and>
        length (on_page0 f [title_page, plain_page]) = 2 \<and>
        drop 1 (on_page0 f [title_page, plain_page]) = [plain_page]"
proof -
  define files' where "files' = snd (run_strategy env0 ''in.pdf'' ''out.pdf'' ''clean'' title_files)"
  have r: "run_strategy env0 ''in.pdf'' ''out.pdf'' ''clean'' title_files = (True, files')"
    unfolding files'_def by (simp add: title_clean)
  have t: "title_files ''in.pdf'' = Some (Pdf [title_page, plain_page])"
    by (simp add: title_files_def)
  from f[rule_format, OF r] obtain doc where
    d: "title_files ''in.pdf'' = Some (Pdf doc)" "files' = title_files(''out.pdf'' \<mapsto> Pdf (on_page0 f doc))"
       "length (on_page0 f doc) = length doc" "drop 1 (on_page0 f doc) = drop 1 doc"
    by (elim exE conjE)
  from d(1) t have e: "doc = [title_page, plain_page]" by simp
  from d(3) have l: "length (on_page0 f [title_page, plain_page]) = 2" unfolding e by simp
  from d(4) have p: "drop 1 (on_page0 f [title_page, plain_page]) = [plain_page]" unfolding e by simp
  from r d(2) have q: "run_strategy env0 ''in.pdf'' ''out.pdf'' ''clean'' title_files =
          (True, title_files(''out.pdf'' \<mapsto> Pdf (on_page0 f [title_page, plain_page])))"
    unfolding e by (simp only:)
  from q l p show ?thesis by (intro conjI)
qed

theorem success_changes_page0_only_witness:
  "\<exists>f. run_strategy env0 ''in.pdf'' ''out.pdf'' ''clean'' title_files =
          (True, title_files(''out.pdf'' \<mapsto> Pdf (on_page0 f [title_page, plain_page]))) \<and>
        length (on_page0 f [title_page, plain_page]) = 2 \<and>
        drop 1 (on_page0 f [title_page, plain_page]) = [plain_page]"
proof -
  from success_changes_page0_only[of env0 "''in.pdf''" "''out.pdf''" "''clean''"]
  obtain f where f: "\<forall>files files'.
     run_strategy env0 ''in.pdf'' ''out.pdf'' ''clean'' files = (True, files') \<longrightarrow>
     (\<exists>doc. files ''in.pdf'' = Some (Pdf doc) \<and> files' = files(''out.pdf'' \<mapsto> Pdf (on_page0 f doc)) \<and>
            length (on_page0 f doc) = length doc \<and> drop 1 (on_page0 f doc) = drop 1 doc)" ..
  show ?thesis by (rule exI[where x=f]) (rule page0_witness_step[OF f])
qed

end
